theory Spec2Isabelle
  imports Main "HOL-Library.Word" "HOL-Library.Signed_Division"
begin

section \<open>Constants and enumerations (include/program.h)\<close>

text \<open>
  The C++ type \<^verbatim>\<open>int\<close> is modelled as a 32-bit two's complement word: arithmetic wraps
  (signed overflow, which C++ leaves undefined, behaves as on the machine), comparisons
  are the signed ones (\<open><s\<close>, \<open>\<le>s\<close>), and \<open>sint\<close> reads the value. Enumerators are the
  integers the compiler assigns to them.
\<close>

type_synonym int32 = "32 word"

definition MEMORY_SIZE :: int32 where "MEMORY_SIZE = 2000"
definition SYS_INDEX :: int32 where "SYS_INDEX = 1000"
definition INT_INDEX :: int32 where "INT_INDEX = 1500"

text \<open>\<^verbatim>\<open>enum register_values\<close>: indices into the register array.\<close>

definition PC :: nat where "PC = 0"
definition IR :: nat where "IR = 1"
definition AC :: nat where "AC = 2"
definition X :: nat where "X = 3"
definition Y :: nat where "Y = 4"
definition SP :: nat where "SP = 5"
definition REGCOUNT :: nat where "REGCOUNT = 6"

lemmas register_values_defs = PC_def IR_def AC_def X_def Y_def SP_def REGCOUNT_def

text \<open>\<^verbatim>\<open>enum mem_codes\<close>: the discriminator of a request.\<close>

definition READ :: int32 where "READ = 0"
definition WRITE :: int32 where "WRITE = 1"

lemmas mem_codes_defs = READ_def WRITE_def

text \<open>\<^verbatim>\<open>enum error_codes\<close>: exit codes, also used as response statuses on the pipe.\<close>

definition SUCCESS :: int32 where "SUCCESS = 0"
definition CLI_FAILURE :: int32 where "CLI_FAILURE = 1"
definition FORK_FAILURE :: int32 where "FORK_FAILURE = 2"
definition PIPE_FAILURE :: int32 where "PIPE_FAILURE = 3"
definition FILE_PARSE_FAILURE :: int32 where "FILE_PARSE_FAILURE = 4"
definition INVALID_OPCODE :: int32 where "INVALID_OPCODE = 5"
definition PROGRAM_PATH_FAILURE :: int32 where "PROGRAM_PATH_FAILURE = 6"
definition READ_FAILURE :: int32 where "READ_FAILURE = 7"
definition WRITE_FAILURE :: int32 where "WRITE_FAILURE = 8"
definition INVALID_MEM_ACTION :: int32 where "INVALID_MEM_ACTION = 9"
definition MEMORY_OUT_OF_BOUNDS :: int32 where "MEMORY_OUT_OF_BOUNDS = 10"
definition KERNEL_MEM_ACCESS_DENIED :: int32 where "KERNEL_MEM_ACCESS_DENIED = 11"
definition USER_MEM_ACCESS_DENIED :: int32 where "USER_MEM_ACCESS_DENIED = 12"
definition INVALID_PORT_CALL :: int32 where "INVALID_PORT_CALL = 13"

lemmas error_codes_defs =
  SUCCESS_def CLI_FAILURE_def FORK_FAILURE_def PIPE_FAILURE_def FILE_PARSE_FAILURE_def
  INVALID_OPCODE_def PROGRAM_PATH_FAILURE_def READ_FAILURE_def WRITE_FAILURE_def
  INVALID_MEM_ACTION_def MEMORY_OUT_OF_BOUNDS_def KERNEL_MEM_ACCESS_DENIED_def
  USER_MEM_ACCESS_DENIED_def INVALID_PORT_CALL_def

text \<open>\<^verbatim>\<open>enum instruction\<close>: opcodes 1 to 30, and 50 for END.\<close>

definition LOAD_VAL :: int32 where "LOAD_VAL = 1"
definition LOAD_ADDR :: int32 where "LOAD_ADDR = 2"
definition LOAD_IND_ADDR :: int32 where "LOAD_IND_ADDR = 3"
definition LOAD_IDX_X_ADDR :: int32 where "LOAD_IDX_X_ADDR = 4"
definition LOAD_IDX_Y_ADDR :: int32 where "LOAD_IDX_Y_ADDR = 5"
definition LOAD_SPX :: int32 where "LOAD_SPX = 6"
definition STORE :: int32 where "STORE = 7"
definition GET :: int32 where "GET = 8"
definition PUT :: int32 where "PUT = 9"
definition ADDX :: int32 where "ADDX = 10"
definition ADDY :: int32 where "ADDY = 11"
definition SUBX :: int32 where "SUBX = 12"
definition SUBY :: int32 where "SUBY = 13"
definition COPY_TO_X :: int32 where "COPY_TO_X = 14"
definition COPY_FR_X :: int32 where "COPY_FR_X = 15"
definition COPY_TO_Y :: int32 where "COPY_TO_Y = 16"
definition COPY_FR_Y :: int32 where "COPY_FR_Y = 17"
definition COPY_TO_SP :: int32 where "COPY_TO_SP = 18"
definition COPY_FR_SP :: int32 where "COPY_FR_SP = 19"
definition JUMP :: int32 where "JUMP = 20"
definition JUMP_IF_EQ :: int32 where "JUMP_IF_EQ = 21"
definition JUMP_IF_NEQ :: int32 where "JUMP_IF_NEQ = 22"
definition JUMP_RETURN :: int32 where "JUMP_RETURN = 23"
definition RETURN :: int32 where "RETURN = 24"
definition INCX :: int32 where "INCX = 25"
definition DECX :: int32 where "DECX = 26"
definition PUSH :: int32 where "PUSH = 27"
definition POP :: int32 where "POP = 28"
definition SYSCALL :: int32 where "SYSCALL = 29"
definition SYSRETURN :: int32 where "SYSRETURN = 30"
definition END :: int32 where "END = 50"

lemmas instruction_defs =
  LOAD_VAL_def LOAD_ADDR_def LOAD_IND_ADDR_def LOAD_IDX_X_ADDR_def LOAD_IDX_Y_ADDR_def
  LOAD_SPX_def STORE_def GET_def PUT_def ADDX_def ADDY_def SUBX_def SUBY_def
  COPY_TO_X_def COPY_FR_X_def COPY_TO_Y_def COPY_FR_Y_def COPY_TO_SP_def COPY_FR_SP_def
  JUMP_def JUMP_IF_EQ_def JUMP_IF_NEQ_def JUMP_RETURN_def RETURN_def INCX_def DECX_def
  PUSH_def POP_def SYSCALL_def SYSRETURN_def END_def

section \<open>The state of the two processes\<close>

text \<open>
  One record holds the globals of the processor process (processor.cc), the array of the
  main memory process (memory.cc), the contents of the two pipes created in main.cc, and
  the environment of the processor: what the PUT instruction has written to standard
  output and the values the C library's \<^verbatim>\<open>rand()\<close> will return next. The register array
  \<^verbatim>\<open>int registers[REGCOUNT]\<close> is a function of the index, used at the indices below
  \<open>REGCOUNT\<close> only; the memory array \<^verbatim>\<open>int memory[MEMORY_SIZE]\<close> is a list, which the
  statements that read a cell back take to have 2000 elements.
\<close>

datatype printed = PrintInt int32 | PrintChar "8 word"

record machine =
  interrupt_timer :: int32
  instruction_counter :: int32
  inactive_sys_stack :: int32
  inactive_proc_stack :: int32
  registers :: "nat \<Rightarrow> int32"
  interruptEnabledFlag :: bool
  kernelMode :: bool
  memory :: "int32 list"
  procToMem :: "int32 list"
  memToProc :: "int32 list"
  cout :: "printed list"
  rand_source :: "nat \<Rightarrow> int32"

text \<open>
  How a run of the machine stops: \<open>Exit c\<close> is \<^verbatim>\<open>endProcess(c)\<close> (the memory process is
  killed, the line naming the exit code is printed and the processor calls \<^verbatim>\<open>exit(c)\<close>;
  that line is a function of \<open>c\<close> and is not recorded in \<open>cout\<close>); \<open>Blocked\<close> is a
  \<^verbatim>\<open>read\<close> on an empty pipe, which never returns; \<open>SIGFPE\<close> is the trap of an integer
  remainder by zero. The state at that moment is kept beside it.
\<close>

datatype halt = Exit int32 | Blocked | SIGFPE

type_synonym 'a outcome = "(halt \<times> machine) + 'a"

definition bindE :: "'a outcome \<Rightarrow> ('a \<Rightarrow> 'b outcome) \<Rightarrow> 'b outcome" where
  "bindE r f = (case r of Inl e \<Rightarrow> Inl e | Inr x \<Rightarrow> f x)"

definition endProcess :: "int32 \<Rightarrow> machine \<Rightarrow> 'a outcome" where
  "endProcess exitCode s = Inl (Exit exitCode, s)"

section \<open>The pipes\<close>

text \<open>
  A pipe is the list of the integers written to it and not yet read. Each \<^verbatim>\<open>write\<close> of
  \<^verbatim>\<open>sizeof(int)\<close> bytes appends one integer, each \<^verbatim>\<open>read\<close> removes the first one.
\<close>

definition write_procToMem :: "int32 \<Rightarrow> machine \<Rightarrow> machine" where
  "write_procToMem v s = s\<lparr>procToMem := procToMem s @ [v]\<rparr>"

definition write_memToProc :: "int32 \<Rightarrow> machine \<Rightarrow> machine" where
  "write_memToProc v s = s\<lparr>memToProc := memToProc s @ [v]\<rparr>"

definition read_procToMem :: "machine \<Rightarrow> (int32 \<times> machine) outcome" where
  "read_procToMem s =
     (case procToMem s of
        [] \<Rightarrow> Inl (Blocked, s)
      | v # rest \<Rightarrow> Inr (v, s\<lparr>procToMem := rest\<rparr>))"

definition read_memToProc :: "machine \<Rightarrow> (int32 \<times> machine) outcome" where
  "read_memToProc s =
     (case memToProc s of
        [] \<Rightarrow> Inl (Blocked, s)
      | v # rest \<Rightarrow> Inr (v, s\<lparr>memToProc := rest\<rparr>))"

section \<open>Main memory (memory.cc)\<close>

text \<open>
  \<^verbatim>\<open>signalhandler\<close>: the action and the address are read first, whatever the action is;
  the value of a WRITE is read only inside the branch of a valid address.
\<close>

definition signalhandler :: "machine \<Rightarrow> machine outcome" where
  "signalhandler s =
     bindE (read_procToMem s) (\<lambda>(action, s).
     bindE (read_procToMem s) (\<lambda>(address, s).
       if action = READ then
         (if 0 \<le>s address \<and> address <s MEMORY_SIZE
          then Inr (write_memToProc (memory s ! nat (sint address)) (write_memToProc SUCCESS s))
          else Inr (write_memToProc READ_FAILURE s))
       else if action = WRITE then
         (if 0 \<le>s address \<and> address <s MEMORY_SIZE
          then bindE (read_procToMem s) (\<lambda>(val, s).
                 Inr (write_memToProc SUCCESS
                        (s\<lparr>memory := (memory s)[nat (sint address) := val]\<rparr>)))
          else Inr (write_memToProc WRITE_FAILURE s))
       else Inr (write_memToProc INVALID_MEM_ACTION s)))"

section \<open>Processor: access control and memory access (processor.cc)\<close>

text \<open>
  \<^verbatim>\<open>verifyAccess\<close>: three \<^verbatim>\<open>if\<close> statements in sequence; \<^verbatim>\<open>endProcess\<close> does not return,
  so a later test is reached only when the earlier ones were false.
\<close>

definition verifyAccess :: "int32 \<Rightarrow> machine \<Rightarrow> machine outcome" where
  "verifyAccess address s =
     (if address <s 0 \<or> MEMORY_SIZE \<le>s address then endProcess MEMORY_OUT_OF_BOUNDS s
      else if SYS_INDEX \<le>s address \<and> \<not> kernelMode s then endProcess KERNEL_MEM_ACCESS_DENIED s
      else if address <s SYS_INDEX \<and> kernelMode s then endProcess USER_MEM_ACCESS_DENIED s
      else Inr s)"

text \<open>
  \<^verbatim>\<open>readMemory\<close> and \<^verbatim>\<open>writeMemory\<close>: the request is written to the pipe, SIGINT makes the
  memory process run its handler, and the processor blocks on the response; the handler
  therefore runs between the last \<^verbatim>\<open>write\<close> and the first \<^verbatim>\<open>read\<close> of the processor.
\<close>

definition readMemory :: "int32 \<Rightarrow> machine \<Rightarrow> (int32 \<times> machine) outcome" where
  "readMemory address s =
     bindE (verifyAccess address s) (\<lambda>s.
     bindE (signalhandler (write_procToMem address (write_procToMem READ s))) (\<lambda>s.
     bindE (read_memToProc s) (\<lambda>(status, s).
       if status \<noteq> SUCCESS then endProcess status s
       else read_memToProc s)))"

definition writeMemory :: "int32 \<Rightarrow> int32 \<Rightarrow> machine \<Rightarrow> machine outcome" where
  "writeMemory address val s =
     bindE (verifyAccess address s) (\<lambda>s.
     bindE (signalhandler
              (write_procToMem val (write_procToMem address (write_procToMem WRITE s)))) (\<lambda>s.
     bindE (read_memToProc s) (\<lambda>(status, s).
       if status \<noteq> SUCCESS then endProcess status s
       else Inr s)))"

text \<open>Assignment to one element of the register array.\<close>

definition set_reg :: "nat \<Rightarrow> int32 \<Rightarrow> machine \<Rightarrow> machine" where
  "set_reg r v s = s\<lparr>registers := (registers s)(r := v)\<rparr>"

section \<open>Processor: stack and register frame\<close>

text \<open>\<^verbatim>\<open>writeMemory(--registers[SP], value)\<close> and \<^verbatim>\<open>readMemory(registers[SP]++)\<close>.\<close>

definition pushStack :: "int32 \<Rightarrow> machine \<Rightarrow> machine outcome" where
  "pushStack val s =
     (let s = set_reg SP (registers s SP - 1) s
      in writeMemory (registers s SP) val s)"

definition popStack :: "machine \<Rightarrow> (int32 \<times> machine) outcome" where
  "popStack s =
     (let address = registers s SP;
          s = set_reg SP (registers s SP + 1) s
      in readMemory address s)"

text \<open>
  The two \<^verbatim>\<open>for(int i=1; i < REGCOUNT; i++)\<close> loops, as recursion over the values of
  \<open>i\<close>; the stack pointer is updated after the loop.
\<close>

fun pushRegisters_loop :: "nat list \<Rightarrow> machine \<Rightarrow> machine outcome" where
  "pushRegisters_loop [] s = Inr s"
| "pushRegisters_loop (i # rest) s =
     bindE (writeMemory (registers s SP - of_nat i) (registers s (i - 1)) s)
       (pushRegisters_loop rest)"

definition pushRegistersOnStack :: "machine \<Rightarrow> machine outcome" where
  "pushRegistersOnStack s =
     bindE (pushRegisters_loop [1..<REGCOUNT] s) (\<lambda>s.
       Inr (set_reg SP (registers s SP - of_nat (REGCOUNT - 1)) s))"

fun popRegisters_loop :: "nat list \<Rightarrow> machine \<Rightarrow> machine outcome" where
  "popRegisters_loop [] s = Inr s"
| "popRegisters_loop (i # rest) s =
     bindE (readMemory (registers s SP + of_nat REGCOUNT - 1 - of_nat i) s) (\<lambda>(v, s).
       popRegisters_loop rest (set_reg (i - 1) v s))"

definition popRegistersOnStack :: "machine \<Rightarrow> machine outcome" where
  "popRegistersOnStack s =
     bindE (popRegisters_loop [1..<REGCOUNT] s) (\<lambda>s.
       Inr (set_reg SP (registers s SP + of_nat (REGCOUNT - 1)) s))"

section \<open>Processor: interrupts and mode switch\<close>

text \<open>
  \<^verbatim>\<open>syscall\<close>: the mode and the interrupt flag are set first, then the stack pointers are
  switched, the registers are pushed and the program counter is set.
\<close>

definition syscall :: "int32 \<Rightarrow> machine \<Rightarrow> machine outcome" where
  "syscall address s =
     (if interruptEnabledFlag s then
        (if \<not> kernelMode s then
           (let s = s\<lparr>kernelMode := True\<rparr>;
                s = s\<lparr>interruptEnabledFlag := False\<rparr>;
                s = s\<lparr>inactive_proc_stack := registers s SP\<rparr>;
                s = set_reg SP (inactive_sys_stack s) s
            in bindE (pushRegistersOnStack s) (\<lambda>s.
                 Inr (set_reg PC address s)))
         else Inr s)
      else Inr s)"

definition return_syscall :: "machine \<Rightarrow> machine outcome" where
  "return_syscall s =
     bindE (popRegistersOnStack s) (\<lambda>s.
       (let s = s\<lparr>inactive_sys_stack := registers s SP\<rparr>;
            s = set_reg SP (inactive_proc_stack s) s;
            s = s\<lparr>interruptEnabledFlag := True\<rparr>;
            s = s\<lparr>kernelMode := False\<rparr>
        in Inr s))"

text \<open>
  \<^verbatim>\<open>checkInterrupt\<close>: the remainder of C++ truncates towards zero (\<open>smod\<close>). A remainder
  by zero, and the remainder of the least integer by -1, trap.
\<close>

definition checkInterrupt :: "machine \<Rightarrow> machine outcome" where
  "checkInterrupt s =
     (if interrupt_timer s = 0
         \<or> (instruction_counter s = - (2 ^ 31) \<and> interrupt_timer s = - 1)
      then Inl (SIGFPE, s)
      else if sint (instruction_counter s) smod sint (interrupt_timer s) = 0
      then syscall SYS_INDEX s
      else Inr s)"

section \<open>Processor: fetch and execute\<close>

definition fetchInstruction :: "machine \<Rightarrow> machine outcome" where
  "fetchInstruction s =
     bindE (readMemory (registers s PC) s) (\<lambda>(v, s). Inr (set_reg IR v s))"

text \<open>The expression \<^verbatim>\<open>readMemory(registers[PC]++)\<close>, which fetches an operand.\<close>

definition readMemory_PC_inc :: "machine \<Rightarrow> (int32 \<times> machine) outcome" where
  "readMemory_PC_inc s =
     (let address = registers s PC;
          s = set_reg PC (registers s PC + 1) s
      in readMemory address s)"

text \<open>
  \<^verbatim>\<open>executeInstruction\<close>: the \<^verbatim>\<open>switch\<close> on the instruction register. \<^verbatim>\<open>rand()\<close> takes the
  next value of \<open>rand_source\<close>; \<^verbatim>\<open>(char)\<close> keeps the low eight bits.
\<close>

definition executeInstruction :: "machine \<Rightarrow> machine outcome" where
  "executeInstruction s =
     (let ir = registers s IR in
      if ir = LOAD_VAL then
        bindE (readMemory_PC_inc s) (\<lambda>(v, s). Inr (set_reg AC v s))
      else if ir = LOAD_ADDR then
        bindE (readMemory_PC_inc s) (\<lambda>(temp, s).
        bindE (readMemory temp s) (\<lambda>(v, s). Inr (set_reg AC v s)))
      else if ir = LOAD_IND_ADDR then
        bindE (readMemory_PC_inc s) (\<lambda>(temp, s).
        bindE (readMemory temp s) (\<lambda>(temp, s).
        bindE (readMemory temp s) (\<lambda>(v, s). Inr (set_reg AC v s))))
      else if ir = LOAD_IDX_X_ADDR then
        bindE (readMemory_PC_inc s) (\<lambda>(temp, s).
        bindE (readMemory (temp + registers s X) s) (\<lambda>(v, s). Inr (set_reg AC v s)))
      else if ir = LOAD_IDX_Y_ADDR then
        bindE (readMemory_PC_inc s) (\<lambda>(temp, s).
        bindE (readMemory (temp + registers s Y) s) (\<lambda>(v, s). Inr (set_reg AC v s)))
      else if ir = LOAD_SPX then
        bindE (readMemory (registers s SP + registers s X) s) (\<lambda>(v, s).
          Inr (set_reg AC v s))
      else if ir = STORE then
        bindE (readMemory_PC_inc s) (\<lambda>(temp, s). writeMemory temp (registers s AC) s)
      else if ir = GET then
        (let r = rand_source s 0;
             s = s\<lparr>rand_source := (\<lambda>n. rand_source s (Suc n))\<rparr>
         in Inr (set_reg AC (word_of_int (sint r smod 100) + 1) s))
      else if ir = PUT then
        bindE (readMemory_PC_inc s) (\<lambda>(temp, s).
          if temp = 1 then Inr (s\<lparr>cout := cout s @ [PrintInt (registers s AC)]\<rparr>)
          else if temp = 2 then Inr (s\<lparr>cout := cout s @ [PrintChar (ucast (registers s AC))]\<rparr>)
          else endProcess INVALID_PORT_CALL s)
      else if ir = ADDX then Inr (set_reg AC (registers s AC + registers s X) s)
      else if ir = ADDY then Inr (set_reg AC (registers s AC + registers s Y) s)
      else if ir = SUBX then Inr (set_reg AC (registers s AC - registers s X) s)
      else if ir = SUBY then Inr (set_reg AC (registers s AC - registers s Y) s)
      else if ir = COPY_TO_X then Inr (set_reg X (registers s AC) s)
      else if ir = COPY_FR_X then Inr (set_reg AC (registers s X) s)
      else if ir = COPY_TO_Y then Inr (set_reg Y (registers s AC) s)
      else if ir = COPY_FR_Y then Inr (set_reg AC (registers s Y) s)
      else if ir = COPY_TO_SP then Inr (set_reg SP (registers s AC) s)
      else if ir = COPY_FR_SP then Inr (set_reg AC (registers s SP) s)
      else if ir = JUMP then
        bindE (readMemory (registers s PC) s) (\<lambda>(v, s). Inr (set_reg PC v s))
      else if ir = JUMP_IF_EQ then
        bindE (readMemory_PC_inc s) (\<lambda>(temp, s).
          if registers s AC = 0 then Inr (set_reg PC temp s) else Inr s)
      else if ir = JUMP_IF_NEQ then
        bindE (readMemory_PC_inc s) (\<lambda>(temp, s).
          if registers s AC \<noteq> 0 then Inr (set_reg PC temp s) else Inr s)
      else if ir = JUMP_RETURN then
        bindE (pushStack (registers s PC + 1) s) (\<lambda>s.
        bindE (readMemory (registers s PC) s) (\<lambda>(v, s). Inr (set_reg PC v s)))
      else if ir = RETURN then
        bindE (popStack s) (\<lambda>(v, s). Inr (set_reg PC v s))
      else if ir = INCX then Inr (set_reg X (registers s X + 1) s)
      else if ir = DECX then Inr (set_reg X (registers s X - 1) s)
      else if ir = PUSH then pushStack (registers s AC) s
      else if ir = POP then
        bindE (popStack s) (\<lambda>(v, s). Inr (set_reg AC v s))
      else if ir = SYSCALL then syscall INT_INDEX s
      else if ir = SYSRETURN then return_syscall s
      else if ir = END then endProcess SUCCESS s
      else endProcess INVALID_OPCODE s)"

text \<open>
  One iteration of the loop of \<^verbatim>\<open>run_execution_cycle\<close>, in two parts: fetch, increment
  the program counter, execute and increment the instruction counter; then the timer check.
\<close>

definition fetch_execute :: "machine \<Rightarrow> machine outcome" where
  "fetch_execute s =
     bindE (fetchInstruction s) (\<lambda>s.
     bindE (executeInstruction (set_reg PC (registers s PC + 1) s)) (\<lambda>s.
       Inr (s\<lparr>instruction_counter := instruction_counter s + 1\<rparr>)))"

definition cycle :: "machine \<Rightarrow> machine outcome" where
  "cycle s = bindE (fetch_execute s) checkInterrupt"

text \<open>
  \<^verbatim>\<open>while(true)\<close>: the loop is left only through \<^verbatim>\<open>endProcess\<close> or a trap. The first
  argument bounds the number of iterations; \<open>Inr s\<close> is a machine that is still running
  after that many instructions, \<open>Inl\<close> one that has stopped.
\<close>

fun run_execution_cycle :: "nat \<Rightarrow> machine \<Rightarrow> machine outcome" where
  "run_execution_cycle 0 s = Inr s"
| "run_execution_cycle (Suc n) s = bindE (cycle s) (run_execution_cycle n)"

text \<open>
  Before \<^verbatim>\<open>run_processor\<close> runs, the globals of the processor are zero (static storage),
  the memory array holds the loaded image and both pipes are empty (the load flag has
  been read by \<^verbatim>\<open>main\<close>).
\<close>

definition static_init :: "int32 list \<Rightarrow> (nat \<Rightarrow> int32) \<Rightarrow> machine" where
  "static_init img rnd =
     \<lparr>interrupt_timer = 0, instruction_counter = 0,
      inactive_sys_stack = 0, inactive_proc_stack = 0,
      registers = (\<lambda>_. 0), interruptEnabledFlag = False, kernelMode = False,
      memory = img, procToMem = [], memToProc = [], cout = [], rand_source = rnd\<rparr>"

definition init_processor :: "int32 \<Rightarrow> machine \<Rightarrow> machine" where
  "init_processor timer s =
     (let s = s\<lparr>interrupt_timer := timer\<rparr>;
          s = set_reg PC 0 s;
          s = s\<lparr>inactive_sys_stack := MEMORY_SIZE\<rparr>;
          s = s\<lparr>inactive_proc_stack := SYS_INDEX\<rparr>;
          s = set_reg SP (inactive_proc_stack s) s;
          s = s\<lparr>instruction_counter := 0\<rparr>;
          s = s\<lparr>interruptEnabledFlag := True\<rparr>;
          s = s\<lparr>kernelMode := False\<rparr>
      in s)"

text \<open>
  The self-test. \<^verbatim>\<open>printRegistersAndStack\<close> prints the registers and reads the ten cells
  1999 down to 1990 through \<^verbatim>\<open>readMemory\<close>; \<^verbatim>\<open>debugProgram\<close> reads, writes and reads
  cell 10, then sets \<^verbatim>\<open>kernelMode\<close> (and nothing else of the control state), loads the
  stack pointer, fills the registers, pushes the frame, overwrites the registers, pops the
  frame and ends the process. The text both functions write to standard output is made
  of fixed strings and of the values read; it is not recorded in \<open>cout\<close>.
\<close>

fun printRegistersAndStack_loop :: "nat list \<Rightarrow> machine \<Rightarrow> machine outcome" where
  "printRegistersAndStack_loop [] s = Inr s"
| "printRegistersAndStack_loop (i # rest) s =
     bindE (readMemory (1999 - of_nat i) s) (\<lambda>(v, s). printRegistersAndStack_loop rest s)"

definition printRegistersAndStack :: "machine \<Rightarrow> machine outcome" where
  "printRegistersAndStack s = printRegistersAndStack_loop [0..<10] s"

definition debugProgram :: "machine \<Rightarrow> machine outcome" where
  "debugProgram s =
     bindE (readMemory 10 s) (\<lambda>(v, s).
     bindE (writeMemory 10 1337 s) (\<lambda>s.
     bindE (readMemory 10 s) (\<lambda>(v, s).
       (let s = s\<lparr>kernelMode := True\<rparr>;
            s = set_reg SP (inactive_sys_stack s) s;
            s = set_reg IR 10 s;
            s = set_reg AC 20 s;
            s = set_reg X 30 s;
            s = set_reg Y 40 s
        in bindE (printRegistersAndStack s) (\<lambda>s.
           bindE (pushRegistersOnStack s) (\<lambda>s.
           bindE (printRegistersAndStack s) (\<lambda>s.
             (let s = set_reg IR 99 s;
                  s = set_reg AC 88 s;
                  s = set_reg X 77 s;
                  s = set_reg Y 66 s
              in bindE (printRegistersAndStack s) (\<lambda>s.
                 bindE (popRegistersOnStack s) (\<lambda>s.
                 bindE (printRegistersAndStack s) (\<lambda>s.
                   endProcess SUCCESS s)))))))))))"

text \<open>
  \<^verbatim>\<open>run_processor\<close>: the initialisation, then the self-test or the execution loop. The
  self-test ends the process itself; were it to return, \<^verbatim>\<open>endProcess(PROGRAM_PATH_FAILURE)\<close>
  would follow. The loop never returns, so for it \<open>Inr\<close> is a machine still running after
  \<open>n\<close> instructions, as above.
\<close>

definition run_processor :: "int32 \<Rightarrow> bool \<Rightarrow> nat \<Rightarrow> machine \<Rightarrow> machine outcome" where
  "run_processor timer debugMode n s =
     (let s = init_processor timer s
      in if debugMode then bindE (debugProgram s) (endProcess PROGRAM_PATH_FAILURE)
         else run_execution_cycle n s)"

section \<open>Start-up (main.cc)\<close>

text \<open>
  The validation of the command line in \<^verbatim>\<open>main\<close>, up to the call of \<^verbatim>\<open>run_processor\<close>.
  The arguments are the argument count, the results of \<^verbatim>\<open>stoi(argv[2])\<close> and of
  \<^verbatim>\<open>stoi(argv[2], NULL, 0)\<close> (\<open>None\<close> when \<^verbatim>\<open>stoi\<close> throws), whether the program file can
  be opened, and whether \<^verbatim>\<open>argv[3]\<close> is \<^verbatim>\<open>--debug\<close>. An exception of \<^verbatim>\<open>stoi\<close> is caught
  by \<^verbatim>\<open>catch(...)\<close>, which returns \<^verbatim>\<open>CLI_FAILURE\<close>. A \<^verbatim>\<open>throw;\<close> while no exception is
  being handled calls \<^verbatim>\<open>std::terminate\<close>: the process is aborted. In both cases no pipe
  is created and no process is forked.
\<close>

datatype startup = Aborted | Returned int32 | Started int32 bool

definition main :: "nat \<Rightarrow> int32 option \<Rightarrow> int32 option \<Rightarrow> bool \<Rightarrow> bool \<Rightarrow> startup" where
  "main argc stoi_argv2 stoi_argv2_base0 existingFile debug_arg =
     (if argc < 3 \<or> argc > 4 then Aborted
      else case stoi_argv2 of
        None \<Rightarrow> Returned CLI_FAILURE
      | Some t \<Rightarrow>
          if t <s 0 then Aborted
          else if \<not> existingFile then Aborted
          else if argc = 4 \<and> \<not> debug_arg then Aborted
          else (case stoi_argv2_base0 of
                  None \<Rightarrow> Returned CLI_FAILURE
                | Some timer \<Rightarrow> Started timer (argc = 4)))"

section \<open>Notions used in the statements\<close>

text \<open>No request is in flight: both pipes are empty.\<close>

definition channel_idle :: "machine \<Rightarrow> bool" where
  "channel_idle s = (procToMem s = [] \<and> memToProc s = [])"

text \<open>The access check of the processor lets the address through.\<close>

definition permitted :: "int32 \<Rightarrow> machine \<Rightarrow> bool" where
  "permitted a s = (verifyAccess a s = Inr s)"

text \<open>The state a computation ends in, and how it stopped if it did.\<close>

definition state_of :: "machine outcome \<Rightarrow> machine" where
  "state_of r = (case r of Inl (h, s) \<Rightarrow> s | Inr s \<Rightarrow> s)"

definition halted_with :: "'a outcome \<Rightarrow> halt option" where
  "halted_with r = (case r of Inl (h, s) \<Rightarrow> Some h | Inr x \<Rightarrow> None)"

text \<open>
  The interrupt entry as the specification words it, for comparison with \<open>syscall\<close>: in
  user mode with interrupts enabled, save the stack pointer, load the kernel stack
  pointer, push the frame, then set the mode and disable interrupts, then set the program
  counter; in kernel mode the interrupt is dropped.
\<close>

definition syscall_as_specified :: "int32 \<Rightarrow> machine \<Rightarrow> machine outcome" where
  "syscall_as_specified address s =
     (if \<not> kernelMode s \<and> interruptEnabledFlag s then
        (let s = s\<lparr>inactive_proc_stack := registers s SP\<rparr>;
             s = set_reg SP (inactive_sys_stack s) s
         in bindE (pushRegistersOnStack s) (\<lambda>s.
              (let s = s\<lparr>kernelMode := True\<rparr>;
                   s = s\<lparr>interruptEnabledFlag := False\<rparr>
               in Inr (set_reg PC address s))))
      else Inr s)"

text \<open>
  A concrete machine: the program of the end-to-end scenario at address 0, every other
  cell 0, a random source that always returns 0; \<open>example_boot\<close> is the processor
  initialised on it with a given timer, \<open>example_kernel\<close> the state in which the
  self-test of \<^verbatim>\<open>debugProgram\<close> exercises the register frame (kernel mode, the stack
  pointer at the top of the kernel stack, registers 10, 20, 30, 40).
\<close>

definition example_image :: "int32 list" where
  "example_image = [1, 5, 7, 10, 2, 10, 9, 1, 50] @ replicate 1991 0"

definition zero_rand :: "nat \<Rightarrow> int32" where
  "zero_rand n = 0"

definition example_boot :: "int32 \<Rightarrow> machine" where
  "example_boot timer = init_processor timer (static_init example_image zero_rand)"

definition example_kernel :: machine where
  "example_kernel =
     (let s = example_boot 5;
          s = s\<lparr>kernelMode := True\<rparr>;
          s = set_reg SP (inactive_sys_stack s) s;
          s = set_reg IR 10 s;
          s = set_reg AC 20 s;
          s = set_reg X 30 s;
          s = set_reg Y 40 s
      in s)"

section \<open>Notions used in the proofs\<close>

text \<open>
  What holds of the result of a computation: \<open>E\<close> of the halt and the state if it
  stopped, \<open>Q\<close> of the value if it returned.
\<close>

definition post :: "'a outcome \<Rightarrow> (halt \<Rightarrow> machine \<Rightarrow> bool) \<Rightarrow> ('a \<Rightarrow> bool) \<Rightarrow> bool" where
  "post r E Q = (case r of Inl (h, s) \<Rightarrow> E h s | Inr x \<Rightarrow> Q x)"

text \<open>The halts the processor itself produces: access violations and the other exits.\<close>

definition access_violation :: "halt \<Rightarrow> bool" where
  "access_violation h =
     (h = Exit MEMORY_OUT_OF_BOUNDS \<or> h = Exit KERNEL_MEM_ACCESS_DENIED
      \<or> h = Exit USER_MEM_ACCESS_DENIED)"

definition proper_halt :: "halt \<Rightarrow> bool" where
  "proper_halt h =
     (access_violation h \<or> h = Exit SUCCESS \<or> h = Exit INVALID_OPCODE
      \<or> h = Exit INVALID_PORT_CALL \<or> h = SIGFPE)"

text \<open>The mode and the interrupt flag are opposite; with an idle channel, the invariant.\<close>

definition flags_paired :: "machine \<Rightarrow> bool" where
  "flags_paired s = (interruptEnabledFlag s = (\<not> kernelMode s))"

text \<open>
  How the control state may change in one step: not at all, by an interrupt entry, or by
  a return from the handler; the pipes are empty afterwards and the timer and the
  instruction counter are untouched.
\<close>

definition same_control :: "machine \<Rightarrow> machine \<Rightarrow> bool" where
  "same_control s s' =
     (channel_idle s' \<and> interrupt_timer s' = interrupt_timer s
      \<and> instruction_counter s' = instruction_counter s
      \<and> kernelMode s' = kernelMode s \<and> interruptEnabledFlag s' = interruptEnabledFlag s)"

definition entered_kernel :: "machine \<Rightarrow> machine \<Rightarrow> bool" where
  "entered_kernel s s' =
     (channel_idle s' \<and> interrupt_timer s' = interrupt_timer s
      \<and> instruction_counter s' = instruction_counter s
      \<and> \<not> kernelMode s \<and> interruptEnabledFlag s \<and> kernelMode s' \<and> \<not> interruptEnabledFlag s')"

definition returned_to_user :: "machine \<Rightarrow> machine \<Rightarrow> bool" where
  "returned_to_user s s' =
     (channel_idle s' \<and> interrupt_timer s' = interrupt_timer s
      \<and> instruction_counter s' = instruction_counter s
      \<and> \<not> kernelMode s' \<and> interruptEnabledFlag s')"

definition mode_rel :: "int32 \<Rightarrow> machine \<Rightarrow> machine \<Rightarrow> bool" where
  "mode_rel opc s s' =
     (same_control s s'
      \<or> (opc = SYSCALL \<and> entered_kernel s s')
      \<or> (opc = SYSRETURN \<and> returned_to_user s s'))"

text \<open>The values of \<^verbatim>\<open>enum instruction\<close>, and the cell the program counter points to.\<close>

definition opcodes :: "int32 list" where
  "opcodes =
     [LOAD_VAL, LOAD_ADDR, LOAD_IND_ADDR, LOAD_IDX_X_ADDR, LOAD_IDX_Y_ADDR, LOAD_SPX, STORE,
      GET, PUT, ADDX, ADDY, SUBX, SUBY, COPY_TO_X, COPY_FR_X, COPY_TO_Y, COPY_FR_Y, COPY_TO_SP,
      COPY_FR_SP, JUMP, JUMP_IF_EQ, JUMP_IF_NEQ, JUMP_RETURN, RETURN, INCX, DECX, PUSH, POP,
      SYSCALL, SYSRETURN, END]"

definition fetched :: "machine \<Rightarrow> int32" where
  "fetched s = memory s ! nat (sint (registers s PC))"

definition timer_due :: "machine \<Rightarrow> bool" where
  "timer_due s = (sint (instruction_counter s) smod sint (interrupt_timer s) = 0)"

definition machine_inv :: "machine \<Rightarrow> bool" where
  "machine_inv s = (channel_idle s \<and> flags_paired s)"

text \<open>
  The example machine with timer 1 after its first instruction, before and after the timer
  check.
\<close>

definition example_after_load :: machine where
  "example_after_load =
     \<lparr>interrupt_timer = 1, instruction_counter = 1,
      inactive_sys_stack = 2000, inactive_proc_stack = 1000,
      registers = (\<lambda>_. 0)(PC := 2, IR := 1, AC := 5, SP := 1000),
      interruptEnabledFlag = True, kernelMode = False,
      memory = example_image,
      procToMem = [], memToProc = [], cout = [], rand_source = zero_rand\<rparr>"

definition example_in_handler :: machine where
  "example_in_handler =
     \<lparr>interrupt_timer = 1, instruction_counter = 1,
      inactive_sys_stack = 2000, inactive_proc_stack = 1000,
      registers = (\<lambda>_. 0)(PC := 1000, IR := 1, AC := 5, SP := 1995),
      interruptEnabledFlag = False, kernelMode = True,
      memory = example_image[1999 := 2, 1998 := 1, 1997 := 5, 1996 := 0, 1995 := 0],
      procToMem = [], memToProc = [], cout = [], rand_source = zero_rand\<rparr>"

text \<open>
  A second image with a timer handler at address 1000 (INCX, SYSRETURN), and the machine
  with timer 1 on it after its first cycle, inside the handler, and after the handler's
  first instruction.
\<close>

definition handler_image :: "int32 list" where
  "handler_image = example_image[1000 := INCX, 1001 := SYSRETURN]"

definition handler_entered :: machine where
  "handler_entered =
     \<lparr>interrupt_timer = 1, instruction_counter = 1,
      inactive_sys_stack = 2000, inactive_proc_stack = 1000,
      registers = (\<lambda>_. 0)(PC := 1000, IR := 1, AC := 5, SP := 1995),
      interruptEnabledFlag = False, kernelMode = True,
      memory = handler_image[1999 := 2, 1998 := 1, 1997 := 5, 1996 := 0, 1995 := 0],
      procToMem = [], memToProc = [], cout = [], rand_source = zero_rand\<rparr>"

definition handler_after_incx :: machine where
  "handler_after_incx =
     \<lparr>interrupt_timer = 1, instruction_counter = 2,
      inactive_sys_stack = 2000, inactive_proc_stack = 1000,
      registers = (\<lambda>_. 0)(PC := 1001, IR := 25, AC := 5, X := 1, SP := 1995),
      interruptEnabledFlag = False, kernelMode = True,
      memory = handler_image[1999 := 2, 1998 := 1, 1997 := 5, 1996 := 0, 1995 := 0],
      procToMem = [], memToProc = [], cout = [], rand_source = zero_rand\<rparr>"

text \<open>
  The same machine after the handler's SYSRETURN, back in user mode, and after the timer
  check that follows, inside the handler again.
\<close>

definition handler_returned :: machine where
  "handler_returned =
     \<lparr>interrupt_timer = 1, instruction_counter = 3,
      inactive_sys_stack = 2000, inactive_proc_stack = 1000,
      registers = (\<lambda>_. 0)(PC := 2, IR := 1, AC := 5, SP := 1000),
      interruptEnabledFlag = True, kernelMode = False,
      memory = handler_image[1999 := 2, 1998 := 1, 1997 := 5, 1996 := 0, 1995 := 0],
      procToMem = [], memToProc = [], cout = [], rand_source = zero_rand\<rparr>"

definition handler_reentered :: machine where
  "handler_reentered =
     \<lparr>interrupt_timer = 1, instruction_counter = 3,
      inactive_sys_stack = 2000, inactive_proc_stack = 1000,
      registers = (\<lambda>_. 0)(PC := 1000, IR := 1, AC := 5, SP := 1995),
      interruptEnabledFlag = False, kernelMode = True,
      memory = handler_image[1999 := 2, 1998 := 1, 1997 := 5, 1996 := 0, 1995 := 0],
      procToMem = [], memToProc = [], cout = [], rand_source = zero_rand\<rparr>"

text \<open>The example machine at the exit of the self-test, started with timer 5.\<close>

definition example_debug_exit :: machine where
  "example_debug_exit =
     \<lparr>interrupt_timer = 5, instruction_counter = 0,
      inactive_sys_stack = 2000, inactive_proc_stack = 1000,
      registers = (\<lambda>_. 0)(IR := 10, AC := 20, X := 30, Y := 40, SP := 2000),
      interruptEnabledFlag = True, kernelMode = True,
      memory = example_image[10 := 1337, 1999 := 0, 1998 := 10, 1997 := 20, 1996 := 30,
                 1995 := 40],
      procToMem = [], memToProc = [], cout = [], rand_source = zero_rand\<rparr>"

section \<open>Basic facts\<close>

lemma bindE_simps [simp]:
  "bindE (Inl e) f = Inl e"
  "bindE (Inr x) f = f x"
  by (simp_all add: bindE_def)

lemma run_processor_False:
  "run_processor timer False n s = run_execution_cycle n (init_processor timer s)"
  by (simp add: run_processor_def)

lemma set_reg_simps [simp]:
  "registers (set_reg r v s) = (registers s)(r := v)"
  "memory (set_reg r v s) = memory s"
  "kernelMode (set_reg r v s) = kernelMode s"
  "interruptEnabledFlag (set_reg r v s) = interruptEnabledFlag s"
  "interrupt_timer (set_reg r v s) = interrupt_timer s"
  "instruction_counter (set_reg r v s) = instruction_counter s"
  "inactive_sys_stack (set_reg r v s) = inactive_sys_stack s"
  "inactive_proc_stack (set_reg r v s) = inactive_proc_stack s"
  "procToMem (set_reg r v s) = procToMem s"
  "memToProc (set_reg r v s) = memToProc s"
  "cout (set_reg r v s) = cout s"
  "rand_source (set_reg r v s) = rand_source s"
  by (simp_all add: set_reg_def)

lemma in_range_iff: "(0 \<le>s a \<and> a <s MEMORY_SIZE) = (0 \<le> sint a \<and> sint a < 2000)"
  by (simp add: word_sle_eq word_sless_alt MEMORY_SIZE_def)

lemma verifyAccess_Inr:
  "verifyAccess a s = Inr s' \<Longrightarrow>
     s' = s \<and> 0 \<le> sint a \<and> sint a < 2000 \<and> (kernelMode s \<longleftrightarrow> 1000 \<le> sint a)"
  by (auto simp add: verifyAccess_def endProcess_def word_sle_eq word_sless_alt
      MEMORY_SIZE_def SYS_INDEX_def split: if_splits)

lemma permitted_iff:
  "permitted a s = (0 \<le> sint a \<and> sint a < 2000 \<and> (kernelMode s \<longleftrightarrow> 1000 \<le> sint a))"
  by (auto simp add: permitted_def verifyAccess_def endProcess_def word_sle_eq word_sless_alt
      MEMORY_SIZE_def SYS_INDEX_def)

lemma permitted_memory_upd [simp]: "permitted a (s\<lparr>memory := m\<rparr>) = permitted a s"
  by (simp add: permitted_iff)

lemma permitted_set_reg [simp]: "permitted a (set_reg r v s) = permitted a s"
  by (simp add: permitted_iff)

lemma channel_idle_memory_upd [simp]: "channel_idle (s\<lparr>memory := m\<rparr>) = channel_idle s"
  by (simp add: channel_idle_def)

lemma channel_idle_set_reg [simp]: "channel_idle (set_reg r v s) = channel_idle s"
  by (simp add: channel_idle_def)

subsection \<open>A request on an idle channel\<close>

lemma readMemory_idle:
  assumes "channel_idle s"
  shows "readMemory a s =
     (case verifyAccess a s of Inl e \<Rightarrow> Inl e | Inr _ \<Rightarrow> Inr (memory s ! nat (sint a), s))"
proof (cases "verifyAccess a s")
  case (Inl e)
  then show ?thesis by (simp add: readMemory_def)
next
  case (Inr s')
  from verifyAccess_Inr [OF Inr] have s': "s' = s" and r: "0 \<le> sint a" "sint a < 2000"
    by auto
  from assms have e: "procToMem s = []" "memToProc s = []"
    by (simp_all add: channel_idle_def)
  show ?thesis
    using Inr r e unfolding s'
    by (simp add: readMemory_def signalhandler_def read_procToMem_def write_procToMem_def
        write_memToProc_def read_memToProc_def in_range_iff SUCCESS_def READ_def)
qed

lemma writeMemory_idle:
  assumes "channel_idle s"
  shows "writeMemory a v s =
     (case verifyAccess a s of Inl e \<Rightarrow> Inl e
      | Inr _ \<Rightarrow> Inr (s\<lparr>memory := (memory s)[nat (sint a) := v]\<rparr>))"
proof (cases "verifyAccess a s")
  case (Inl e)
  then show ?thesis by (simp add: writeMemory_def)
next
  case (Inr s')
  from verifyAccess_Inr [OF Inr] have s': "s' = s" and r: "0 \<le> sint a" "sint a < 2000"
    by auto
  from assms have e: "procToMem s = []" "memToProc s = []"
    by (simp_all add: channel_idle_def)
  show ?thesis
    using Inr r e unfolding s'
    by (simp add: writeMemory_def signalhandler_def read_procToMem_def write_procToMem_def
        write_memToProc_def read_memToProc_def in_range_iff SUCCESS_def READ_def WRITE_def)
qed

lemma readMemory_permitted:
  "channel_idle s \<Longrightarrow> permitted a s \<Longrightarrow> readMemory a s = Inr (memory s ! nat (sint a), s)"
  by (simp add: readMemory_idle permitted_def)

lemma writeMemory_permitted:
  "channel_idle s \<Longrightarrow> permitted a s \<Longrightarrow>
     writeMemory a v s = Inr (s\<lparr>memory := (memory s)[nat (sint a) := v]\<rparr>)"
  by (simp add: writeMemory_idle permitted_def)

subsection \<open>The register frame\<close>

lemma upt_REGCOUNT: "[1..<REGCOUNT] = [1, 2, 3, 4, 5]"
  by (simp add: REGCOUNT_def upt_rec)

lemma index_inj:
  fixes a b :: int32
  assumes "0 \<le> sint a" "0 \<le> sint b"
  shows "(nat (sint a) = nat (sint b)) = (a = b)"
proof -
  have "(sint a = sint b) = (a = b)" by (auto intro: signed_word_eqI)
  then show ?thesis using assms by (simp add: nat_eq_iff)
qed

lemma frame_distinct:
  "k - 1 \<noteq> k - (2::int32)" "k - 1 \<noteq> k - (3::int32)" "k - 1 \<noteq> k - (4::int32)"
  "k - 1 \<noteq> k - (5::int32)" "k - 2 \<noteq> k - (3::int32)" "k - 2 \<noteq> k - (4::int32)"
  "k - 2 \<noteq> k - (5::int32)" "k - 3 \<noteq> k - (4::int32)" "k - 3 \<noteq> k - (5::int32)"
  "k - 4 \<noteq> k - (5::int32)"
  by simp_all

lemma frame_cells:
  fixes v1 v2 v3 v4 v5 k :: int32
  assumes len: "length m = 2000"
    and r: "0 \<le> sint (k - 1)" "sint (k - 1) < 2000" "0 \<le> sint (k - 2)" "sint (k - 2) < 2000"
      "0 \<le> sint (k - 3)" "sint (k - 3) < 2000" "0 \<le> sint (k - 4)" "sint (k - 4) < 2000"
      "0 \<le> sint (k - 5)" "sint (k - 5) < 2000"
  defines "m' \<equiv> m[nat (sint (k - 1)) := v1, nat (sint (k - 2)) := v2, nat (sint (k - 3)) := v3,
             nat (sint (k - 4)) := v4, nat (sint (k - 5)) := v5]"
  shows "m' ! nat (sint (k - 1)) = v1" "m' ! nat (sint (k - 2)) = v2"
    "m' ! nat (sint (k - 3)) = v3" "m' ! nat (sint (k - 4)) = v4"
    "m' ! nat (sint (k - 5)) = v5"
  using len r unfolding m'_def
  using frame_distinct [of k] frame_distinct [of k, symmetric]
  by (simp_all add: nth_list_update index_inj)

lemma pushRegistersOnStack_permitted:
  assumes idle: "channel_idle s"
    and p: "\<forall>i\<in>{1..5::nat}. permitted (registers s SP - of_nat i) s"
  shows "pushRegistersOnStack s =
     Inr (set_reg SP (registers s SP - 5)
       (s\<lparr>memory := (memory s)
          [nat (sint (registers s SP - 1)) := registers s PC,
           nat (sint (registers s SP - 2)) := registers s IR,
           nat (sint (registers s SP - 3)) := registers s AC,
           nat (sint (registers s SP - 4)) := registers s X,
           nat (sint (registers s SP - 5)) := registers s Y]\<rparr>))"
proof -
  have "permitted (registers s SP - 1) s" "permitted (registers s SP - 2) s"
    "permitted (registers s SP - 3) s" "permitted (registers s SP - 4) s"
    "permitted (registers s SP - 5) s"
    using p [THEN bspec, of 1] p [THEN bspec, of 2] p [THEN bspec, of 3]
      p [THEN bspec, of 4] p [THEN bspec, of 5] by simp_all
  then show ?thesis using idle
    unfolding pushRegistersOnStack_def upt_REGCOUNT
    by (simp add: writeMemory_permitted register_values_defs)
qed

lemma popRegistersOnStack_permitted:
  assumes idle: "channel_idle s"
    and p: "\<forall>i\<in>{1..5::nat}. permitted (registers s SP + 5 - of_nat i) s"
  shows "popRegistersOnStack s =
     Inr (set_reg SP (registers s SP + 5)
       (set_reg Y (memory s ! nat (sint (registers s SP)))
       (set_reg X (memory s ! nat (sint (registers s SP + 1)))
       (set_reg AC (memory s ! nat (sint (registers s SP + 2)))
       (set_reg IR (memory s ! nat (sint (registers s SP + 3)))
       (set_reg PC (memory s ! nat (sint (registers s SP + 4))) s))))))"
proof -
  have "permitted (4 + registers s SP) s" "permitted (3 + registers s SP) s"
    "permitted (2 + registers s SP) s" "permitted (1 + registers s SP) s"
    "permitted (registers s SP) s"
    using p [THEN bspec, of 1] p [THEN bspec, of 2] p [THEN bspec, of 3]
      p [THEN bspec, of 4] p [THEN bspec, of 5] by simp_all
  then show ?thesis using idle
    unfolding popRegistersOnStack_def upt_REGCOUNT
    by (simp add: readMemory_permitted register_values_defs add.commute)
qed

subsection \<open>The example machine\<close>

lemma example_image_length: "length example_image = 2000"
  by (simp add: example_image_def)

lemma example_boot_simps:
  "interrupt_timer (example_boot t) = t"
  "instruction_counter (example_boot t) = 0"
  "inactive_sys_stack (example_boot t) = 2000"
  "inactive_proc_stack (example_boot t) = 1000"
  "registers (example_boot t) = (\<lambda>_. 0)(SP := 1000)"
  "interruptEnabledFlag (example_boot t) = True"
  "kernelMode (example_boot t) = False"
  "memory (example_boot t) = example_image"
  "procToMem (example_boot t) = []"
  "memToProc (example_boot t) = []"
  "cout (example_boot t) = []"
  "rand_source (example_boot t) = zero_rand"
  by (simp_all add: example_boot_def init_processor_def static_init_def Let_def
      MEMORY_SIZE_def SYS_INDEX_def fun_eq_iff register_values_defs)

lemma example_kernel_simps:
  "registers example_kernel = (\<lambda>_. 0)(SP := 2000, IR := 10, AC := 20, X := 30, Y := 40)"
  "kernelMode example_kernel = True"
  "memory example_kernel = example_image"
  "procToMem example_kernel = []"
  "memToProc example_kernel = []"
  by (simp_all add: example_kernel_def example_boot_simps Let_def)

lemma set_1_REGCOUNT: "{1..<REGCOUNT} = {1, 2, 3, 4, 5}"
  by (auto simp add: REGCOUNT_def)

lemma set_1_5: "{1..5::nat} = {1, 2, 3, 4, 5}"
  by auto

lemma sint_sub_small:
  fixes k :: int32
  assumes "5 \<le> sint k" 
  shows "sint (k - 1) = sint k - 1" "sint (k - 2) = sint k - 2" "sint (k - 3) = sint k - 3"
    "sint (k - 4) = sint k - 4" "sint (k - 5) = sint k - 5"
proof -
  have b: "sint k < 2 ^ 31" using sint_lt [of k] by simp
  show "sint (k - 1) = sint k - 1" "sint (k - 2) = sint k - 2" "sint (k - 3) = sint k - 3"
    "sint (k - 4) = sint k - 4" "sint (k - 5) = sint k - 5"
    using assms b
    by (simp_all add: sint_word_ariths signed_take_bit_int_eq_self)
qed

section \<open>Access control\<close>

text \<open>
  C1. The access check of the processor evaluates its rules in order and returns the first
  match: an address below 0 or from 2000 on is out of bounds; otherwise an address from 1000
  on in user mode is denied as kernel memory; otherwise an address below 1000 in kernel
  mode is denied as user memory; otherwise the access is allowed. In particular every
  address from 0 to 999 accessed in kernel mode is denied as user memory.
\<close>

theorem verifyAccess_rules:
  "verifyAccess a s =
     (if sint a < 0 \<or> 2000 \<le> sint a then Inl (Exit MEMORY_OUT_OF_BOUNDS, s)
      else if 1000 \<le> sint a \<and> \<not> kernelMode s then Inl (Exit KERNEL_MEM_ACCESS_DENIED, s)
      else if sint a < 1000 \<and> kernelMode s then Inl (Exit USER_MEM_ACCESS_DENIED, s)
      else Inr s)
   \<and> (0 \<le> sint a \<and> sint a < 1000 \<and> kernelMode s \<longrightarrow>
        verifyAccess a s = Inl (Exit USER_MEM_ACCESS_DENIED, s))"
  by (simp add: verifyAccess_def endProcess_def word_sle_eq word_sless_alt
      MEMORY_SIZE_def SYS_INDEX_def)

theorem verifyAccess_rules_witness:
  "(0::int) \<le> sint (5::int32) \<and> sint (5::int32) < 1000 \<and> kernelMode example_kernel
   \<and> verifyAccess 5 example_kernel = Inl (Exit USER_MEM_ACCESS_DENIED, example_kernel)"
  using verifyAccess_rules [of 5 example_kernel] by (simp add: example_kernel_simps)

section \<open>Main memory: bounds check and message framing\<close>

text \<open>
  C6. For every address outside 0..1999, a READ request is answered with the status
  READ_FAILURE alone, with no value field after it, and a WRITE request with WRITE_FAILURE,
  and the memory array is left as it was; for every address in 0..1999 the store answers
  SUCCESS (followed by the cell for a READ, after storing the value for a WRITE), whatever
  the mode of the processor is.
\<close>

theorem signalhandler_bounds_check:
  "(sint a < 0 \<or> 2000 \<le> sint a \<longrightarrow>
      signalhandler (s\<lparr>kernelMode := mode, procToMem := [READ, a]\<rparr>)
        = Inr (s\<lparr>kernelMode := mode, procToMem := [],
                 memToProc := memToProc s @ [READ_FAILURE]\<rparr>)
    \<and> signalhandler (s\<lparr>kernelMode := mode, procToMem := [WRITE, a, v]\<rparr>)
        = Inr (s\<lparr>kernelMode := mode, procToMem := [v],
                 memToProc := memToProc s @ [WRITE_FAILURE]\<rparr>))
   \<and> (0 \<le> sint a \<and> sint a < 2000 \<longrightarrow>
      signalhandler (s\<lparr>kernelMode := mode, procToMem := [READ, a]\<rparr>)
        = Inr (s\<lparr>kernelMode := mode, procToMem := [],
                 memToProc := memToProc s @ [SUCCESS, memory s ! nat (sint a)]\<rparr>)
    \<and> signalhandler (s\<lparr>kernelMode := mode, procToMem := [WRITE, a, v]\<rparr>)
        = Inr (s\<lparr>kernelMode := mode, procToMem := [],
                 memory := (memory s)[nat (sint a) := v],
                 memToProc := memToProc s @ [SUCCESS]\<rparr>))"
  by (auto simp add: signalhandler_def read_procToMem_def write_memToProc_def in_range_iff
      READ_def WRITE_def)

theorem signalhandler_bounds_check_witness:
  "(sint (2000::int32) < 0 \<or> 2000 \<le> sint (2000::int32))
   \<and> signalhandler (example_boot 5\<lparr>kernelMode := False, procToMem := [READ, 2000]\<rparr>)
        = Inr (example_boot 5\<lparr>kernelMode := False, procToMem := [],
                 memToProc := [READ_FAILURE]\<rparr>)
   \<and> signalhandler (example_boot 5\<lparr>kernelMode := False, procToMem := [WRITE, 2000, 7]\<rparr>)
        = Inr (example_boot 5\<lparr>kernelMode := False, procToMem := [7],
                 memToProc := [WRITE_FAILURE]\<rparr>)
   \<and> 0 \<le> sint (1999::int32) \<and> sint (1999::int32) < 2000
   \<and> signalhandler (example_boot 5\<lparr>kernelMode := False, procToMem := [READ, 1999]\<rparr>)
        = Inr (example_boot 5\<lparr>kernelMode := False, procToMem := [],
                 memToProc := [SUCCESS, 0]\<rparr>)
   \<and> signalhandler (example_boot 5\<lparr>kernelMode := False, procToMem := [WRITE, 1999, 7]\<rparr>)
        = Inr (example_boot 5\<lparr>kernelMode := False, procToMem := [],
                 memory := example_image[1999 := 7], memToProc := [SUCCESS]\<rparr>)"
  using signalhandler_bounds_check [where a = 2000 and s = "example_boot 5" and mode = False and v = 7]
    signalhandler_bounds_check [where a = 1999 and s = "example_boot 5" and mode = False and v = 7]
  by (simp add: example_boot_simps example_image_def nth_append)

text \<open>
  C5, as amended. The store reads the kind and the address of every request; for a READ
  it reads nothing more, whether the address is valid or not, and for a WRITE with an
  address in 0..1999 it reads the value before it stores and answers. What follows the
  request in the pipe is left there. This covers every request the processor sends: after
  it the pipe is empty. A message shorter than its discriminator requires is not acted on:
  the handler waits for the missing field, and memory is untouched.
\<close>

theorem signalhandler_consumes_request:
  "halted_with (signalhandler (s\<lparr>procToMem := READ # a # rest\<rparr>)) = None
   \<and> procToMem (state_of (signalhandler (s\<lparr>procToMem := READ # a # rest\<rparr>))) = rest
   \<and> (0 \<le> sint a \<and> sint a < 2000 \<longrightarrow>
        halted_with (signalhandler (s\<lparr>procToMem := WRITE # a # v # rest\<rparr>)) = None
      \<and> procToMem (state_of (signalhandler (s\<lparr>procToMem := WRITE # a # v # rest\<rparr>))) = rest
      \<and> memory (state_of (signalhandler (s\<lparr>procToMem := WRITE # a # v # rest\<rparr>)))
          = (memory s)[nat (sint a) := v])
   \<and> (channel_idle s \<and> permitted a s \<longrightarrow>
        procToMem (state_of (signalhandler (write_procToMem a (write_procToMem READ s)))) = []
      \<and> procToMem (state_of (signalhandler
            (write_procToMem v (write_procToMem a (write_procToMem WRITE s))))) = [])
   \<and> halted_with (signalhandler (s\<lparr>procToMem := [READ]\<rparr>)) = Some Blocked
   \<and> (0 \<le> sint a \<and> sint a < 2000 \<longrightarrow>
        halted_with (signalhandler (s\<lparr>procToMem := [WRITE, a]\<rparr>)) = Some Blocked
      \<and> memory (state_of (signalhandler (s\<lparr>procToMem := [WRITE, a]\<rparr>))) = memory s)"
  by (auto simp add: signalhandler_def read_procToMem_def write_procToMem_def
      write_memToProc_def in_range_iff READ_def WRITE_def halted_with_def state_of_def
      channel_idle_def permitted_iff)

theorem signalhandler_consumes_request_witness:
  "0 \<le> sint (10::int32) \<and> sint (10::int32) < 2000
   \<and> procToMem (state_of (signalhandler (example_boot 5\<lparr>procToMem := [WRITE, 10, 7, 99]\<rparr>)))
       = [99]
   \<and> memory (state_of (signalhandler (example_boot 5\<lparr>procToMem := [WRITE, 10, 7, 99]\<rparr>)))
       = example_image[10 := 7]
   \<and> channel_idle (example_boot 5) \<and> permitted 10 (example_boot 5)
   \<and> procToMem (state_of (signalhandler
         (write_procToMem 7 (write_procToMem 10 (write_procToMem WRITE (example_boot 5)))))) = []
   \<and> halted_with (signalhandler (example_boot 5\<lparr>procToMem := [WRITE, 10]\<rparr>)) = Some Blocked"
proof -
  have h: "channel_idle (example_boot 5) \<and> permitted 10 (example_boot 5)"
    by (simp add: channel_idle_def permitted_iff example_boot_simps)
  show ?thesis
    using signalhandler_consumes_request
      [where s = "example_boot 5" and a = 10 and v = 7 and rest = "[99]"] h
    by (simp add: example_boot_simps)
qed

text \<open>
  C5 as stated includes the failure cases of a WRITE. On a WRITE request for address 2000
  the handler reads the action and the address, answers WRITE_FAILURE and returns: the
  value 7 is left in the pipe.
\<close>

theorem signalhandler_write_failure_counterexample:
  "signalhandler (example_boot 5\<lparr>procToMem := [WRITE, 2000, 7]\<rparr>)
     = Inr (example_boot 5\<lparr>procToMem := [7], memToProc := [WRITE_FAILURE]\<rparr>)
   \<and> procToMem (state_of (signalhandler (example_boot 5\<lparr>procToMem := [WRITE, 2000, 7]\<rparr>)))
     = [7]"
  by (simp add: signalhandler_def read_procToMem_def write_memToProc_def in_range_iff
      READ_def WRITE_def example_boot_simps state_of_def)

section \<open>The register frame\<close>

text \<open>
  C7. From every state in which the five cells below the stack pointer may be accessed in
  the current mode (no request in flight, memory of 2000 cells), pushing the register frame
  and popping it again succeeds and gives back the same state except for those five
  memory cells: PC, IR, AC, X, Y and SP all have their former values.
\<close>

theorem push_pop_frame_roundtrip:
  assumes idle: "channel_idle s" and len: "length (memory s) = 2000"
    and p: "\<forall>i\<in>{1..<REGCOUNT}. permitted (registers s SP - of_nat i) s"
  shows "bindE (pushRegistersOnStack s) popRegistersOnStack
           = Inr (s\<lparr>memory := (memory s)
                [nat (sint (registers s SP - 1)) := registers s PC,
                 nat (sint (registers s SP - 2)) := registers s IR,
                 nat (sint (registers s SP - 3)) := registers s AC,
                 nat (sint (registers s SP - 4)) := registers s X,
                 nat (sint (registers s SP - 5)) := registers s Y]\<rparr>)"
proof -
  define k where "k = registers s SP"
  define m' where "m' = (memory s)
          [nat (sint (k - 1)) := registers s PC,
           nat (sint (k - 2)) := registers s IR,
           nat (sint (k - 3)) := registers s AC,
           nat (sint (k - 4)) := registers s X,
           nat (sint (k - 5)) := registers s Y]"
  define s1 where "s1 = set_reg SP (k - 5) (s\<lparr>memory := m'\<rparr>)"
  from p have p5: "\<forall>i\<in>{1..5::nat}. permitted (k - of_nat i) s"
    by (simp add: REGCOUNT_def k_def)
  have push: "pushRegistersOnStack s = Inr s1"
    using pushRegistersOnStack_permitted [OF idle] p5
    by (simp add: k_def m'_def s1_def)
  have sp1: "registers s1 SP = k - 5" by (simp add: s1_def)
  have idle1: "channel_idle s1" using idle by (simp add: s1_def)
  have p1: "\<forall>i\<in>{1..5::nat}. permitted (registers s1 SP + 5 - of_nat i) s1"
    using p5 by (simp add: sp1) (simp add: s1_def)
  have r: "0 \<le> sint (k - 1)" "sint (k - 1) < 2000" "0 \<le> sint (k - 2)" "sint (k - 2) < 2000"
      "0 \<le> sint (k - 3)" "sint (k - 3) < 2000" "0 \<le> sint (k - 4)" "sint (k - 4) < 2000"
      "0 \<le> sint (k - 5)" "sint (k - 5) < 2000"
    using p5 [THEN bspec, of 1] p5 [THEN bspec, of 2] p5 [THEN bspec, of 3]
      p5 [THEN bspec, of 4] p5 [THEN bspec, of 5] by (simp_all add: permitted_iff)
  have cells: "m' ! nat (sint (k - 1)) = registers s PC" "m' ! nat (sint (k - 2)) = registers s IR"
    "m' ! nat (sint (k - 3)) = registers s AC" "m' ! nat (sint (k - 4)) = registers s X"
    "m' ! nat (sint (k - 5)) = registers s Y"
    unfolding m'_def by (rule frame_cells [OF len r])+
  have mem1: "memory s1 = m'" by (simp add: s1_def)
  have fin: "set_reg SP k (set_reg Y (registers s Y) (set_reg X (registers s X)
      (set_reg AC (registers s AC) (set_reg IR (registers s IR)
      (set_reg PC (registers s PC) s1))))) = s\<lparr>memory := m'\<rparr>"
    by (rule machine.equality) (auto simp add: s1_def set_reg_def fun_eq_iff k_def)
  have pop: "popRegistersOnStack s1 = Inr (s\<lparr>memory := m'\<rparr>)"
    by (simp add: popRegistersOnStack_permitted [OF idle1 p1] sp1 mem1 cells fin)
  show ?thesis using push pop by (simp add: m'_def k_def)
qed

theorem push_pop_frame_roundtrip_witness:
  "channel_idle example_kernel \<and> length (memory example_kernel) = 2000
   \<and> permitted (registers example_kernel SP - 1) example_kernel
   \<and> permitted (registers example_kernel SP - 2) example_kernel
   \<and> permitted (registers example_kernel SP - 3) example_kernel
   \<and> permitted (registers example_kernel SP - 4) example_kernel
   \<and> permitted (registers example_kernel SP - 5) example_kernel
   \<and> bindE (pushRegistersOnStack example_kernel) popRegistersOnStack
       = Inr (example_kernel\<lparr>memory := example_image[1999 := 0, 1998 := 10, 1997 := 20,
                 1996 := 30, 1995 := 40]\<rparr>)"
proof -
  have h1: "channel_idle example_kernel"
    by (simp add: channel_idle_def example_kernel_simps)
  have h2: "length (memory example_kernel) = 2000"
    by (simp add: example_kernel_simps example_image_length)
  have h3: "\<forall>i\<in>{1..<REGCOUNT}. permitted (registers example_kernel SP - of_nat i) example_kernel"
    unfolding set_1_REGCOUNT
    by (simp add: permitted_iff example_kernel_simps register_values_defs)
  have h4: "permitted (registers example_kernel SP - 1) example_kernel"
    "permitted (registers example_kernel SP - 2) example_kernel"
    "permitted (registers example_kernel SP - 3) example_kernel"
    "permitted (registers example_kernel SP - 4) example_kernel"
    "permitted (registers example_kernel SP - 5) example_kernel"
    by (simp_all add: permitted_iff example_kernel_simps register_values_defs)
  show ?thesis
    using push_pop_frame_roundtrip [OF h1 h2 h3] h1 h2 h4
    by (simp add: example_kernel_simps register_values_defs)
qed

section \<open>Interrupt entry\<close>

text \<open>
  C3, as amended. When \<open>syscall\<close> is called in user mode with interrupts enabled, the mode
  is set to kernel and interrupts are disabled first; then the stack pointer is saved in
  the user shadow pointer and loaded from the kernel shadow pointer; then the frame is
  pushed, its stores passing the access check in kernel mode and the request channel; then
  the program counter is set to the handler address. So with the kernel stack pointer in
  1005..2000 the entry succeeds and the frame lies in kernel memory, and with it in 1..1000
  the first store is denied as an access to user memory.
\<close>

theorem syscall_mode_switch:
  assumes user: "\<not> kernelMode s" "interruptEnabledFlag s" and idle: "channel_idle s"
  defines "k \<equiv> inactive_sys_stack s"
  defines "s1 \<equiv> s\<lparr>kernelMode := True, interruptEnabledFlag := False,
                   inactive_proc_stack := registers s SP,
                   registers := (registers s)(SP := k)\<rparr>"
  shows "syscall h s = bindE (pushRegistersOnStack s1) (\<lambda>s. Inr (set_reg PC h s))
    \<and> (1005 \<le> sint k \<and> sint k \<le> 2000 \<longrightarrow>
         syscall h s =
           Inr (s\<lparr>kernelMode := True, interruptEnabledFlag := False,
                  inactive_proc_stack := registers s SP,
                  registers := (registers s)(SP := k - 5, PC := h),
                  memory := (memory s)
                    [nat (sint (k - 1)) := registers s PC,
                     nat (sint (k - 2)) := registers s IR,
                     nat (sint (k - 3)) := registers s AC,
                     nat (sint (k - 4)) := registers s X,
                     nat (sint (k - 5)) := registers s Y]\<rparr>))
    \<and> (1 \<le> sint k \<and> sint k \<le> 1000 \<longrightarrow>
         syscall h s = Inl (Exit USER_MEM_ACCESS_DENIED, s1))"
proof (intro conjI impI)
  have s1: "s1 = set_reg SP (inactive_sys_stack s)
      (s\<lparr>kernelMode := True, interruptEnabledFlag := False,
         inactive_proc_stack := registers s SP\<rparr>)"
    by (simp add: s1_def set_reg_def k_def)
  show seq: "syscall h s = bindE (pushRegistersOnStack s1) (\<lambda>s. Inr (set_reg PC h s))"
    using user by (simp add: syscall_def Let_def s1 set_reg_def)
  have idle1: "channel_idle s1" using idle by (simp add: s1_def channel_idle_def)
  have sp1: "registers s1 SP = k" by (simp add: s1_def)
  {
    assume r: "1005 \<le> sint k \<and> sint k \<le> 2000"
    then have "5 \<le> sint k" by simp
    note sub = sint_sub_small [OF this]
    have p: "\<forall>i\<in>{1..5::nat}. permitted (registers s1 SP - of_nat i) s1"
      unfolding sp1 using r sub
      by (auto simp add: permitted_iff s1_def numeral_eq_Suc le_Suc_eq)
    show "syscall h s =
           Inr (s\<lparr>kernelMode := True, interruptEnabledFlag := False,
                  inactive_proc_stack := registers s SP,
                  registers := (registers s)(SP := k - 5, PC := h),
                  memory := (memory s)
                    [nat (sint (k - 1)) := registers s PC,
                     nat (sint (k - 2)) := registers s IR,
                     nat (sint (k - 3)) := registers s AC,
                     nat (sint (k - 4)) := registers s X,
                     nat (sint (k - 5)) := registers s Y]\<rparr>)"
      unfolding seq pushRegistersOnStack_permitted [OF idle1 p] sp1
      by (simp add: s1_def set_reg_def register_values_defs)
  }
  {
    assume r: "1 \<le> sint k \<and> sint k \<le> 1000"
    have b: "sint k < 2 ^ 31" using sint_lt [of k] by simp
    have "sint (k - 1) = sint k - 1" using r b
      by (simp add: sint_word_ariths signed_take_bit_int_eq_self)
    then have v: "verifyAccess (k - 1) s1 = Inl (Exit USER_MEM_ACCESS_DENIED, s1)"
      using r by (simp add: verifyAccess_def endProcess_def word_sle_eq word_sless_alt
          MEMORY_SIZE_def SYS_INDEX_def s1_def)
    show "syscall h s = Inl (Exit USER_MEM_ACCESS_DENIED, s1)"
      unfolding seq pushRegistersOnStack_def upt_REGCOUNT
      using v sp1 by (simp add: writeMemory_idle [OF idle1])
  }
qed

theorem syscall_mode_switch_witness:
  "\<not> kernelMode (example_boot 5) \<and> interruptEnabledFlag (example_boot 5)
   \<and> channel_idle (example_boot 5)
   \<and> 1005 \<le> sint (inactive_sys_stack (example_boot 5))
   \<and> sint (inactive_sys_stack (example_boot 5)) \<le> 2000
   \<and> syscall INT_INDEX (example_boot 5) =
       Inr (example_boot 5\<lparr>kernelMode := True, interruptEnabledFlag := False,
              inactive_proc_stack := 1000,
              registers := (registers (example_boot 5))(SP := 1995, PC := 1500),
              memory := example_image[1999 := 0, 1998 := 0, 1997 := 0, 1996 := 0, 1995 := 0]\<rparr>)
   \<and> 1 \<le> sint (inactive_sys_stack (example_boot 5\<lparr>inactive_sys_stack := 1000\<rparr>))
   \<and> sint (inactive_sys_stack (example_boot 5\<lparr>inactive_sys_stack := 1000\<rparr>)) \<le> 1000
   \<and> halted_with (syscall INT_INDEX (example_boot 5\<lparr>inactive_sys_stack := 1000\<rparr>))
       = Some (Exit USER_MEM_ACCESS_DENIED)"
proof -
  have h: "\<not> kernelMode (example_boot 5)" "interruptEnabledFlag (example_boot 5)"
    "channel_idle (example_boot 5)"
    by (simp_all add: example_boot_simps channel_idle_def)
  have h': "\<not> kernelMode (example_boot 5\<lparr>inactive_sys_stack := 1000\<rparr>)"
    "interruptEnabledFlag (example_boot 5\<lparr>inactive_sys_stack := 1000\<rparr>)"
    "channel_idle (example_boot 5\<lparr>inactive_sys_stack := 1000\<rparr>)"
    by (simp_all add: example_boot_simps channel_idle_def)
  show ?thesis
    using syscall_mode_switch [OF h, of INT_INDEX, THEN conjunct2, THEN conjunct1]
      syscall_mode_switch [OF h', of INT_INDEX, THEN conjunct2, THEN conjunct2] h
    by (simp add: example_boot_simps halted_with_def INT_INDEX_def register_values_defs)
qed

text \<open>
  C3 as stated puts the mode switch after the push of the frame. On the freshly initialised
  machine that order stops with KERNEL_MEM_ACCESS_DENIED, since the frame would be stored
  at 1995..1999 while still in user mode; the code enters the handler.
\<close>

theorem syscall_order_counterexample:
  "syscall INT_INDEX (example_boot 5) \<noteq> syscall_as_specified INT_INDEX (example_boot 5)
   \<and> halted_with (syscall INT_INDEX (example_boot 5)) = None
   \<and> halted_with (syscall_as_specified INT_INDEX (example_boot 5))
       = Some (Exit KERNEL_MEM_ACCESS_DENIED)"
proof -
  define s1 where "s1 = example_boot 5\<lparr>kernelMode := True, interruptEnabledFlag := False,
      inactive_proc_stack := 1000, registers := (registers (example_boot 5))(SP := 2000)\<rparr>"
  have idle: "channel_idle (example_boot 5)"
    by (simp add: example_boot_simps channel_idle_def)
  have idle1: "channel_idle s1"
    by (simp add: s1_def example_boot_simps channel_idle_def)
  have p: "\<forall>i\<in>{1..5::nat}. permitted (registers s1 SP - of_nat i) s1"
    unfolding set_1_5 by (simp add: s1_def permitted_iff)
  have "syscall INT_INDEX (example_boot 5)
      = bindE (pushRegistersOnStack s1) (\<lambda>s. Inr (set_reg PC INT_INDEX s))"
    by (simp add: syscall_def Let_def example_boot_simps set_reg_def s1_def)
  then have a: "halted_with (syscall INT_INDEX (example_boot 5)) = None"
    by (simp add: pushRegistersOnStack_permitted [OF idle1 p] halted_with_def)
  have b: "halted_with (syscall_as_specified INT_INDEX (example_boot 5))
       = Some (Exit KERNEL_MEM_ACCESS_DENIED)"
    using idle
    unfolding syscall_as_specified_def pushRegistersOnStack_def upt_REGCOUNT
    by (simp add: Let_def example_boot_simps halted_with_def channel_idle_def
        writeMemory_idle verifyAccess_def endProcess_def
        word_sle_eq word_sless_alt MEMORY_SIZE_def SYS_INDEX_def register_values_defs)
  from a b show ?thesis by auto
qed

section \<open>The end-to-end scenario\<close>

lemma checkInterrupt_not_due:
  assumes "0 < sint (instruction_counter s)"
    and "sint (instruction_counter s) < sint (interrupt_timer s)"
  shows "checkInterrupt s = Inr s"
proof -
  have t0: "interrupt_timer s \<noteq> 0" using assms by auto
  have t1: "interrupt_timer s \<noteq> - 1" using assms by auto
  have "sint (instruction_counter s) smod sint (interrupt_timer s) = sint (instruction_counter s)"
    using assms by (simp add: smod_int_alt_def)
  then show ?thesis using t0 t1 assms by (simp add: checkInterrupt_def)
qed

lemma image_cells:
  assumes "take 9 img = [1, 5, 7, 10, 2, 10, 9, 1, 50::int32]"
  shows "img ! 0 = 1" "img ! 1 = 5" "img ! 2 = 7" "img ! 3 = 10" "img ! 4 = 2"
    "img ! 5 = 10" "img ! 6 = 9" "img ! 7 = 1" "img ! 8 = 50"
proof -
  have "img ! i = take 9 img ! i" if "i < 9" for i using that by simp
  from this [of 0] this [of 1] this [of 2] this [of 3] this [of 4] this [of 5] this [of 6]
    this [of 7] this [of 8]
  show "img ! 0 = 1" "img ! 1 = 5" "img ! 2 = 7" "img ! 3 = 10" "img ! 4 = 2"
    "img ! 5 = 10" "img ! 6 = 9" "img ! 7 = 1" "img ! 8 = 50"
    unfolding assms by simp_all
qed

lemma executeInstruction_opcode:
  "registers s IR = LOAD_VAL \<Longrightarrow> executeInstruction s =
     bindE (readMemory_PC_inc s) (\<lambda>(v, s). Inr (set_reg AC v s))"
  "registers s IR = LOAD_ADDR \<Longrightarrow> executeInstruction s =
     bindE (readMemory_PC_inc s) (\<lambda>(temp, s).
     bindE (readMemory temp s) (\<lambda>(v, s). Inr (set_reg AC v s)))"
  "registers s IR = STORE \<Longrightarrow> executeInstruction s =
     bindE (readMemory_PC_inc s) (\<lambda>(temp, s). writeMemory temp (registers s AC) s)"
  "registers s IR = PUT \<Longrightarrow> executeInstruction s =
     bindE (readMemory_PC_inc s) (\<lambda>(temp, s).
       if temp = 1 then Inr (s\<lparr>cout := cout s @ [PrintInt (registers s AC)]\<rparr>)
       else if temp = 2 then Inr (s\<lparr>cout := cout s @ [PrintChar (ucast (registers s AC))]\<rparr>)
       else endProcess INVALID_PORT_CALL s)"
  "registers s IR = END \<Longrightarrow> executeInstruction s = endProcess SUCCESS s"
  by (simp_all add: executeInstruction_def instruction_defs)

lemma scenario_steps:
  fixes img :: "int32 list" and timer :: int32 and rnd :: "nat \<Rightarrow> int32"
  assumes len: "length img = 2000" and img: "take 9 img = [1, 5, 7, 10, 2, 10, 9, 1, 50]"
    and timer: "4 < sint timer"
  defines "st \<equiv> (\<lambda>pc ir ac mem out cnt.
     \<lparr>interrupt_timer = timer, instruction_counter = cnt,
      inactive_sys_stack = 2000, inactive_proc_stack = 1000,
      registers = (\<lambda>_. 0)(PC := pc, IR := ir, AC := ac, SP := 1000),
      interruptEnabledFlag = True, kernelMode = False,
      memory = mem, procToMem = [], memToProc = [], cout = out, rand_source = rnd\<rparr>)"
  shows "init_processor timer (static_init img rnd) = st 0 0 0 img [] 0"
    and "cycle (st 0 0 0 img [] 0) = Inr (st 2 1 5 img [] 1)"
    and "cycle (st 2 1 5 img [] 1) = Inr (st 4 7 5 (img[10 := 5]) [] 2)"
    and "cycle (st 4 7 5 (img[10 := 5]) [] 2) = Inr (st 6 2 5 (img[10 := 5]) [] 3)"
    and "cycle (st 6 2 5 (img[10 := 5]) [] 3) = Inr (st 8 9 5 (img[10 := 5]) [PrintInt 5] 4)"
    and "cycle (st 8 9 5 (img[10 := 5]) [PrintInt 5] 4)
           = Inl (Exit SUCCESS, st 9 50 5 (img[10 := 5]) [PrintInt 5] 4)"
proof -
  note cells = image_cells [OF img] image_cells(2) [OF img, simplified]
  have idle: "channel_idle (st pc ir ac mem out cnt)" for pc ir ac mem out cnt
    by (simp add: st_def channel_idle_def)
  have chk: "checkInterrupt (s\<lparr>instruction_counter := c\<rparr>) = Inr (s\<lparr>instruction_counter := c\<rparr>)"
    if "interrupt_timer s = timer" "c \<in> {1, 2, 3, 4}" for s c
    using that timer by (intro checkInterrupt_not_due) auto
  show "init_processor timer (static_init img rnd) = st 0 0 0 img [] 0"
    by (simp add: init_processor_def static_init_def st_def Let_def set_reg_def
        MEMORY_SIZE_def SYS_INDEX_def fun_eq_iff register_values_defs)
  note ev = st_def cycle_def fetch_execute_def fetchInstruction_def readMemory_idle
    writeMemory_idle channel_idle_def verifyAccess_def endProcess_def word_sle_eq word_sless_alt
    MEMORY_SIZE_def SYS_INDEX_def register_values_defs cells executeInstruction_opcode
    instruction_defs readMemory_PC_inc_def checkInterrupt_not_due fun_eq_iff set_reg_def
    error_codes_defs
  show "cycle (st 0 0 0 img [] 0) = Inr (st 2 1 5 img [] 1)"
    using timer by (simp add: ev)
  show "cycle (st 2 1 5 img [] 1) = Inr (st 4 7 5 (img[10 := 5]) [] 2)"
    using timer by (simp add: ev)
  show "cycle (st 4 7 5 (img[10 := 5]) [] 2) = Inr (st 6 2 5 (img[10 := 5]) [] 3)"
    using timer len by (simp add: ev)
  show "cycle (st 6 2 5 (img[10 := 5]) [] 3) = Inr (st 8 9 5 (img[10 := 5]) [PrintInt 5] 4)"
    using timer len by (simp add: ev)
  show "cycle (st 8 9 5 (img[10 := 5]) [PrintInt 5] 4)
           = Inl (Exit SUCCESS, st 9 50 5 (img[10 := 5]) [PrintInt 5] 4)"
    using timer len by (simp add: ev)
qed

lemma executeInstruction_invalid:
  "registers s IR = 0 \<Longrightarrow> executeInstruction s = endProcess INVALID_OPCODE s"
  by (simp add: executeInstruction_def instruction_defs)

lemma upt_Suc0_6: "[Suc 0..<6] = [1, 2, 3, 4, 5]"
  by (simp add: upt_rec)

lemma run_steps:
  "run_execution_cycle 1 s = cycle s"
  "run_execution_cycle 2 s = bindE (cycle s) cycle"
  "run_execution_cycle 3 s = bindE (cycle s) (\<lambda>s. bindE (cycle s) cycle)"
  "run_execution_cycle 4 s = bindE (cycle s) (\<lambda>s. bindE (cycle s) (\<lambda>s. bindE (cycle s) cycle))"
  "run_execution_cycle 5 s =
     bindE (cycle s) (\<lambda>s. bindE (cycle s) (\<lambda>s. bindE (cycle s) (\<lambda>s. bindE (cycle s) cycle)))"
  by (simp_all add: numeral_eq_Suc bindE_def split: sum.splits)

lemma example_image_cells:
  "example_image ! 0 = 1" "example_image ! Suc 0 = 5" "example_image ! 1000 = 0"
  by (simp_all add: example_image_def nth_append)

lemmas eval_defs = cycle_def fetch_execute_def fetchInstruction_def readMemory_idle
    writeMemory_idle channel_idle_def verifyAccess_def endProcess_def word_sle_eq word_sless_alt
    MEMORY_SIZE_def SYS_INDEX_def register_values_defs executeInstruction_opcode
    instruction_defs readMemory_PC_inc_def fun_eq_iff set_reg_def error_codes_defs

text \<open>
  C8, as amended. With cells 0..8 of the 2000-cell memory holding 1, 5, 7, 10, 2, 10, 9, 1,
  50, every other cell arbitrary, and a timer value greater than 4 (so that no timer
  interrupt falls inside the program), the freshly started machine is still running after
  1, 2, 3 and 4 instructions, with AC = 5 after LOAD_VAL 5, cell 10 set to 5 after STORE 10,
  AC = 5 after LOAD_ADDR 10 and the number 5 printed after PUT 1; the fifth instruction,
  END, stops it with exit code SUCCESS.
\<close>

theorem scenario_exits_with_success:
  assumes len: "length img = 2000" and img: "take 9 img = [1, 5, 7, 10, 2, 10, 9, 1, 50]"
    and timer: "4 < sint timer"
  shows "halted_with (run_processor timer False 1 (static_init img rnd)) = None
    \<and> registers (state_of (run_processor timer False 1 (static_init img rnd))) AC = 5
    \<and> halted_with (run_processor timer False 2 (static_init img rnd)) = None
    \<and> memory (state_of (run_processor timer False 2 (static_init img rnd))) = img[10 := 5]
    \<and> halted_with (run_processor timer False 3 (static_init img rnd)) = None
    \<and> registers (state_of (run_processor timer False 3 (static_init img rnd))) AC = 5
    \<and> halted_with (run_processor timer False 4 (static_init img rnd)) = None
    \<and> cout (state_of (run_processor timer False 4 (static_init img rnd))) = [PrintInt 5]
    \<and> halted_with (run_processor timer False 5 (static_init img rnd)) = Some (Exit SUCCESS)
    \<and> cout (state_of (run_processor timer False 5 (static_init img rnd))) = [PrintInt 5]
    \<and> memory (state_of (run_processor timer False 5 (static_init img rnd))) = img[10 := 5]"
  unfolding run_processor_False run_steps scenario_steps [OF len img timer] bindE_simps
  by (simp add: halted_with_def state_of_def register_values_defs)

theorem scenario_exits_with_success_witness:
  "length example_image = 2000 \<and> take 9 example_image = [1, 5, 7, 10, 2, 10, 9, 1, 50]
   \<and> 4 < sint (5::int32)
   \<and> halted_with (run_processor 5 False 4 (static_init example_image zero_rand)) = None
   \<and> cout (state_of (run_processor 5 False 4 (static_init example_image zero_rand))) = [PrintInt 5]
   \<and> halted_with (run_processor 5 False 5 (static_init example_image zero_rand)) = Some (Exit SUCCESS)
   \<and> cout (state_of (run_processor 5 False 5 (static_init example_image zero_rand))) = [PrintInt 5]
   \<and> memory (state_of (run_processor 5 False 5 (static_init example_image zero_rand)))
        = example_image[10 := 5]"
proof -
  have h1: "length example_image = 2000" by (simp add: example_image_def)
  have h2: "take 9 example_image = [1, 5, 7, 10, 2, 10, 9, 1, 50]"
    by (simp add: example_image_def)
  have h3: "4 < sint (5::int32)" by simp
  show ?thesis
    using scenario_exits_with_success [OF h1 h2 h3, of zero_rand] h1 h2 by simp
qed

text \<open>
  C8 as stated leaves the timer open. With the timer value 1 and the rest of memory zero,
  the timer interrupt is taken after the first instruction, the handler address 1000 holds
  0, which is no opcode, and the machine stops with INVALID_OPCODE having printed nothing.
\<close>

theorem scenario_timer_counterexample:
  "halted_with (run_processor 1 False 5 (static_init example_image zero_rand))
     = Some (Exit INVALID_OPCODE)
   \<and> cout (state_of (run_processor 1 False 5 (static_init example_image zero_rand))) = []"
proof -
  define s1 where "s1 =
     \<lparr>interrupt_timer = 1, instruction_counter = 1,
      inactive_sys_stack = 2000, inactive_proc_stack = 1000,
      registers = (\<lambda>_. 0)(PC := 1000, IR := 1, AC := 5, SP := 1995),
      interruptEnabledFlag = False, kernelMode = True,
      memory = example_image[1999 := 2, 1998 := 1, 1997 := 5, 1996 := 0, 1995 := 0],
      procToMem = [], memToProc = [], cout = [], rand_source = zero_rand\<rparr>"
  have c1: "cycle (init_processor 1 (static_init example_image zero_rand)) = Inr s1"
    by (simp add: init_processor_def static_init_def Let_def eval_defs example_image_cells
        checkInterrupt_def smod_int_alt_def syscall_def pushRegistersOnStack_def upt_Suc0_6 s1_def)
  have c2: "cycle s1 = Inl (Exit INVALID_OPCODE, set_reg PC 1001 (set_reg IR 0 s1))"
    by (simp add: s1_def eval_defs example_image_def nth_append executeInstruction_invalid)
  show ?thesis
    unfolding run_processor_False run_steps c1 bindE_simps c2
    by (simp add: halted_with_def state_of_def s1_def)
qed

section \<open>The timer value\<close>

text \<open>
  C2. The claim is that a timer value of 0 is rejected before the machine starts. Evaluated
  on the arguments \<^verbatim>\<open>program file 0\<close>: \<^verbatim>\<open>main\<close> starts the processor with timer 0, and the
  timer check after the first instruction takes a remainder by zero.
\<close>

theorem timer_zero_accepted:
  "main 3 (Some 0) (Some 0) True False = Started 0 False
   \<and> halted_with (run_processor 0 False 1 (static_init example_image zero_rand)) = Some SIGFPE"
  by (simp add: main_def run_processor_False run_steps init_processor_def static_init_def Let_def
      eval_defs example_image_cells checkInterrupt_def smod_int_alt_def halted_with_def)

section \<open>What every step preserves\<close>

subsection \<open>Results of computations\<close>

lemma post_simps [simp]:
  "post (Inl (h, s)) E Q = E h s"
  "post (Inr x) E Q = Q x"
  by (simp_all add: post_def)

lemma post_bindE: "post (bindE r f) E Q = post r E (\<lambda>x. post (f x) E Q)"
  by (cases r) (auto simp add: post_def)

lemma post_mono:
  "post r E Q \<Longrightarrow> (\<And>h s. E h s \<Longrightarrow> E' h s) \<Longrightarrow> (\<And>x. Q x \<Longrightarrow> Q' x) \<Longrightarrow> post r E' Q'"
  by (auto simp add: post_def split: sum.splits)

lemma verifyAccess_cases:
  "verifyAccess a s = Inr s \<or> (\<exists>h. access_violation h \<and> verifyAccess a s = Inl (h, s))"
  by (simp add: verifyAccess_def endProcess_def access_violation_def)

lemma readMemory_postI:
  assumes "channel_idle s" "\<And>v. Q (v, s)" "\<And>h. access_violation h \<Longrightarrow> E h s"
  shows "post (readMemory a s) E Q"
  using verifyAccess_cases [of a s] assms by (auto simp add: readMemory_idle)

lemma writeMemory_postI:
  assumes "channel_idle s" "\<And>m. Q (s\<lparr>memory := m\<rparr>)" "\<And>h. access_violation h \<Longrightarrow> E h s"
  shows "post (writeMemory a v s) E Q"
  using verifyAccess_cases [of a s] assms by (auto simp add: writeMemory_idle)

lemma pushRegisters_loop_postI:
  assumes "channel_idle s" "\<And>m. Q (s\<lparr>memory := m\<rparr>)"
    "\<And>h m. access_violation h \<Longrightarrow> E h (s\<lparr>memory := m\<rparr>)"
  shows "post (pushRegisters_loop js s) E Q"
  using assms
proof (induction js arbitrary: s)
  case Nil
  from Nil(2) [of "memory s"] show ?case by simp
next
  case (Cons i js)
  show ?case
    unfolding pushRegisters_loop.simps post_bindE
  proof (rule writeMemory_postI)
    show "channel_idle s" by (rule Cons.prems)
    show "post (pushRegisters_loop js (s\<lparr>memory := m\<rparr>)) E Q" for m
      using Cons.prems by (intro Cons.IH) simp_all
    show "E h s" if "access_violation h" for h
      using Cons.prems(3) [OF that, of "memory s"] by simp
  qed
qed

lemma popRegisters_loop_postI:
  assumes "channel_idle s" "\<And>f. Q (s\<lparr>registers := f\<rparr>)"
    "\<And>h f. access_violation h \<Longrightarrow> E h (s\<lparr>registers := f\<rparr>)"
  shows "post (popRegisters_loop js s) E Q"
  using assms
proof (induction js arbitrary: s)
  case Nil
  from Nil(2) [of "registers s"] show ?case by simp
next
  case (Cons i js)
  show ?case
    unfolding popRegisters_loop.simps post_bindE
  proof (rule readMemory_postI)
    show "channel_idle s" by (rule Cons.prems)
    show "post (case (v, s) of (v, s) \<Rightarrow> popRegisters_loop js (set_reg (i - 1) v s)) E Q" for v
      using Cons.prems by (simp, intro Cons.IH) (simp_all add: set_reg_def channel_idle_def)
    show "E h s" if "access_violation h" for h
      using Cons.prems(3) [OF that, of "registers s"] by simp
  qed
qed

subsection \<open>Interrupt entry and return\<close>

lemmas control_defs = same_control_def entered_kernel_def returned_to_user_def channel_idle_def

lemma pushRegistersOnStack_post:
  assumes "channel_idle s"
  shows "post (pushRegistersOnStack s) (\<lambda>h s'. same_control s s' \<and> access_violation h)
           (same_control s)"
  unfolding pushRegistersOnStack_def post_bindE
  using assms by (intro pushRegisters_loop_postI) (simp_all add: control_defs)

lemma popRegistersOnStack_post:
  assumes "channel_idle s"
  shows "post (popRegistersOnStack s) (\<lambda>h s'. same_control s s' \<and> access_violation h)
           (same_control s)"
  unfolding popRegistersOnStack_def post_bindE
  using assms by (intro popRegisters_loop_postI) (simp_all add: control_defs)

lemma syscall_post:
  assumes "channel_idle s"
  shows "post (syscall a s)
           (\<lambda>h s'. entered_kernel s s' \<and> access_violation h)
           (\<lambda>s'. if interruptEnabledFlag s \<and> \<not> kernelMode s
                 then entered_kernel s s' \<and> registers s' PC = a else s' = s)"
proof (cases "interruptEnabledFlag s \<and> \<not> kernelMode s")
  case False
  then show ?thesis by (auto simp add: syscall_def)
next
  case True
  define s1 where "s1 = set_reg SP (inactive_sys_stack s)
      (s\<lparr>kernelMode := True, interruptEnabledFlag := False,
         inactive_proc_stack := registers s SP\<rparr>)"
  have idle1: "channel_idle s1" using assms by (simp add: s1_def channel_idle_def)
  have eq: "syscall a s = bindE (pushRegistersOnStack s1) (\<lambda>s. Inr (set_reg PC a s))"
    using True by (simp add: syscall_def Let_def s1_def set_reg_def)
  have "post (pushRegistersOnStack s1) (\<lambda>h s'. entered_kernel s s' \<and> access_violation h)
      (\<lambda>s'. entered_kernel s (set_reg PC a s') \<and> registers (set_reg PC a s') PC = a)"
    using pushRegistersOnStack_post [OF idle1]
    by (rule post_mono) (use True in \<open>auto simp add: control_defs s1_def\<close>)
  then show ?thesis using True by (simp add: eq post_bindE)
qed

lemma return_syscall_post:
  assumes "channel_idle s"
  shows "post (return_syscall s) (\<lambda>h s'. same_control s s' \<and> access_violation h)
           (returned_to_user s)"
proof -
  have "post (popRegistersOnStack s) (\<lambda>h s'. same_control s s' \<and> access_violation h)
      (\<lambda>s'. returned_to_user s
         (set_reg SP (inactive_proc_stack s') (s'\<lparr>inactive_sys_stack := registers s' SP\<rparr>)
            \<lparr>interruptEnabledFlag := True, kernelMode := False\<rparr>))"
    using popRegistersOnStack_post [OF assms]
    by (rule post_mono) (auto simp add: control_defs set_reg_def)
  then show ?thesis
    by (simp add: return_syscall_def post_bindE Let_def set_reg_def)
qed

subsection \<open>One instruction\<close>

lemma same_control_refl: "channel_idle s \<Longrightarrow> same_control s s"
  by (simp add: same_control_def)

lemma executeInstruction_load:
  "registers s IR = LOAD_IND_ADDR \<Longrightarrow> executeInstruction s =
     bindE (readMemory_PC_inc s) (\<lambda>(temp, s).
     bindE (readMemory temp s) (\<lambda>(temp, s).
     bindE (readMemory temp s) (\<lambda>(v, s). Inr (set_reg AC v s))))"
  "registers s IR = LOAD_IDX_X_ADDR \<Longrightarrow> executeInstruction s =
     bindE (readMemory_PC_inc s) (\<lambda>(temp, s).
     bindE (readMemory (temp + registers s X) s) (\<lambda>(v, s). Inr (set_reg AC v s)))"
  "registers s IR = LOAD_IDX_Y_ADDR \<Longrightarrow> executeInstruction s =
     bindE (readMemory_PC_inc s) (\<lambda>(temp, s).
     bindE (readMemory (temp + registers s Y) s) (\<lambda>(v, s). Inr (set_reg AC v s)))"
  "registers s IR = LOAD_SPX \<Longrightarrow> executeInstruction s =
     bindE (readMemory (registers s SP + registers s X) s) (\<lambda>(v, s). Inr (set_reg AC v s))"
  "registers s IR = GET \<Longrightarrow> executeInstruction s =
     Inr (set_reg AC (word_of_int (sint (rand_source s 0) smod 100) + 1)
            (s\<lparr>rand_source := (\<lambda>n. rand_source s (Suc n))\<rparr>))"
  by (simp_all add: executeInstruction_def instruction_defs Let_def)

lemma executeInstruction_arith:
  "registers s IR = ADDX \<Longrightarrow> executeInstruction s =
     Inr (set_reg AC (registers s AC + registers s X) s)"
  "registers s IR = ADDY \<Longrightarrow> executeInstruction s =
     Inr (set_reg AC (registers s AC + registers s Y) s)"
  "registers s IR = SUBX \<Longrightarrow> executeInstruction s =
     Inr (set_reg AC (registers s AC - registers s X) s)"
  "registers s IR = SUBY \<Longrightarrow> executeInstruction s =
     Inr (set_reg AC (registers s AC - registers s Y) s)"
  "registers s IR = COPY_TO_X \<Longrightarrow> executeInstruction s = Inr (set_reg X (registers s AC) s)"
  "registers s IR = COPY_FR_X \<Longrightarrow> executeInstruction s = Inr (set_reg AC (registers s X) s)"
  "registers s IR = COPY_TO_Y \<Longrightarrow> executeInstruction s = Inr (set_reg Y (registers s AC) s)"
  "registers s IR = COPY_FR_Y \<Longrightarrow> executeInstruction s = Inr (set_reg AC (registers s Y) s)"
  "registers s IR = COPY_TO_SP \<Longrightarrow> executeInstruction s = Inr (set_reg SP (registers s AC) s)"
  "registers s IR = COPY_FR_SP \<Longrightarrow> executeInstruction s = Inr (set_reg AC (registers s SP) s)"
  "registers s IR = INCX \<Longrightarrow> executeInstruction s = Inr (set_reg X (registers s X + 1) s)"
  "registers s IR = DECX \<Longrightarrow> executeInstruction s = Inr (set_reg X (registers s X - 1) s)"
  by (simp_all add: executeInstruction_def instruction_defs)

lemma executeInstruction_control:
  "registers s IR = JUMP \<Longrightarrow> executeInstruction s =
     bindE (readMemory (registers s PC) s) (\<lambda>(v, s). Inr (set_reg PC v s))"
  "registers s IR = JUMP_IF_EQ \<Longrightarrow> executeInstruction s =
     bindE (readMemory_PC_inc s) (\<lambda>(temp, s).
       if registers s AC = 0 then Inr (set_reg PC temp s) else Inr s)"
  "registers s IR = JUMP_IF_NEQ \<Longrightarrow> executeInstruction s =
     bindE (readMemory_PC_inc s) (\<lambda>(temp, s).
       if registers s AC \<noteq> 0 then Inr (set_reg PC temp s) else Inr s)"
  "registers s IR = JUMP_RETURN \<Longrightarrow> executeInstruction s =
     bindE (pushStack (registers s PC + 1) s) (\<lambda>s.
     bindE (readMemory (registers s PC) s) (\<lambda>(v, s). Inr (set_reg PC v s)))"
  "registers s IR = RETURN \<Longrightarrow> executeInstruction s =
     bindE (popStack s) (\<lambda>(v, s). Inr (set_reg PC v s))"
  "registers s IR = PUSH \<Longrightarrow> executeInstruction s = pushStack (registers s AC) s"
  "registers s IR = POP \<Longrightarrow> executeInstruction s =
     bindE (popStack s) (\<lambda>(v, s). Inr (set_reg AC v s))"
  "registers s IR = SYSCALL \<Longrightarrow> executeInstruction s = syscall INT_INDEX s"
  "registers s IR = SYSRETURN \<Longrightarrow> executeInstruction s = return_syscall s"
  by (simp_all add: executeInstruction_def instruction_defs)

lemma executeInstruction_other:
  "registers s IR \<notin> set opcodes \<Longrightarrow> executeInstruction s = endProcess INVALID_OPCODE s"
  by (simp add: executeInstruction_def opcodes_def)

lemmas executeInstruction_eqs = executeInstruction_opcode executeInstruction_load
  executeInstruction_arith executeInstruction_control

lemma mode_rel_same: "same_control s s' \<Longrightarrow> mode_rel opc s s'"
  by (simp add: mode_rel_def)

lemma same_control_updates [simp]:
  "same_control s (set_reg r v s') = same_control s s'"
  "same_control s (s'\<lparr>memory := m\<rparr>) = same_control s s'"
  "same_control s (s'\<lparr>cout := c\<rparr>) = same_control s s'"
  "same_control s (s'\<lparr>rand_source := f\<rparr>) = same_control s s'"
  by (simp_all add: control_defs)

lemma channel_idle_updates [simp]:
  "channel_idle (s\<lparr>cout := c\<rparr>) = channel_idle s"
  "channel_idle (s\<lparr>rand_source := f\<rparr>) = channel_idle s"
  "channel_idle (s\<lparr>registers := g\<rparr>) = channel_idle s"
  "channel_idle (s\<lparr>instruction_counter := n\<rparr>) = channel_idle s"
  by (simp_all add: channel_idle_def)

lemma proper_halt_simps [simp]:
  "access_violation h \<Longrightarrow> proper_halt h"
  "proper_halt (Exit SUCCESS)" "proper_halt (Exit INVALID_OPCODE)"
  "proper_halt (Exit INVALID_PORT_CALL)" "proper_halt SIGFPE"
  by (simp_all add: proper_halt_def)

lemma executeInstruction_post:
  assumes idle: "channel_idle s"
  shows "post (executeInstruction s) (\<lambda>h s'. mode_rel (registers s IR) s s' \<and> proper_halt h) (mode_rel (registers s IR) s)"
proof (cases "registers s IR \<in> set opcodes")
  case False
  then show ?thesis
    using idle by (simp add: executeInstruction_other endProcess_def mode_rel_same same_control_refl)
next
  case True
  have sys: "post (syscall INT_INDEX s) (\<lambda>h s'. mode_rel SYSCALL s s' \<and> proper_halt h)
      (mode_rel SYSCALL s)"
    using syscall_post [OF idle, of INT_INDEX]
    by (rule post_mono)
      (use idle in \<open>auto simp add: mode_rel_def same_control_refl split: if_splits\<close>)
  have ret: "post (return_syscall s) (\<lambda>h s'. mode_rel SYSRETURN s s' \<and> proper_halt h)
      (mode_rel SYSRETURN s)"
    using return_syscall_post [OF idle]
    by (rule post_mono) (auto simp add: mode_rel_def)
  have sc: "same_control s s" using idle by (rule same_control_refl)
  note simps = executeInstruction_eqs readMemory_PC_inc_def pushStack_def popStack_def Let_def
    post_bindE endProcess_def mode_rel_same sys ret sc
  from True show ?thesis
    unfolding opcodes_def set_simps insert_iff empty_iff
    apply (elim disjE)
    using idle
    apply (simp_all add: simps)
    apply ((intro readMemory_postI writeMemory_postI conjI impI; (simp add: simps)?)+)
    done
qed

subsection \<open>One cycle, and a run\<close>

lemma mode_rel_entry [simp]:
  "mode_rel opc (set_reg r v s) s' = mode_rel opc s s'"
  by (simp add: mode_rel_def control_defs)

lemma fetch_execute_permitted:
  assumes "channel_idle s" "permitted (registers s PC) s"
  shows "fetch_execute s =
     bindE (executeInstruction (set_reg PC (registers s PC + 1) (set_reg IR (fetched s) s)))
       (\<lambda>s. Inr (s\<lparr>instruction_counter := instruction_counter s + 1\<rparr>))"
  using assms
  by (simp add: fetch_execute_def fetchInstruction_def readMemory_permitted fetched_def
      register_values_defs)

lemma fetch_execute_denied:
  assumes "channel_idle s" "\<not> permitted (registers s PC) s"
  shows "\<exists>h. access_violation h \<and> fetch_execute s = Inl (h, s)"
  using assms verifyAccess_cases [of "registers s PC" s]
  by (auto simp add: fetch_execute_def fetchInstruction_def readMemory_idle permitted_def)

lemma fetch_execute_post:
  assumes idle: "channel_idle s"
  shows "post (fetch_execute s) (\<lambda>h s'. mode_rel (fetched s) s s' \<and> proper_halt h)
     (\<lambda>s1. mode_rel (fetched s) s (s1\<lparr>instruction_counter := instruction_counter s\<rparr>)
          \<and> instruction_counter s1 = instruction_counter s + 1)"
proof (cases "permitted (registers s PC) s")
  case False
  from fetch_execute_denied [OF idle False] idle show ?thesis
    by (auto simp add: mode_rel_same same_control_refl)
next
  case True
  define se where "se = set_reg PC (registers s PC + 1) (set_reg IR (fetched s) s)"
  have ir: "registers se IR = fetched s" by (simp add: se_def register_values_defs)
  have idle_e: "channel_idle se" using idle by (simp add: se_def)
  have "post (executeInstruction se) (\<lambda>h s'. mode_rel (fetched s) s s' \<and> proper_halt h)
     (\<lambda>s'. mode_rel (fetched s) s (s'\<lparr>instruction_counter := instruction_counter s' + 1,
                instruction_counter := instruction_counter s\<rparr>)
          \<and> instruction_counter s' + 1 = instruction_counter s + 1)"
    using executeInstruction_post [OF idle_e] unfolding ir
    by (rule post_mono) (auto simp add: se_def mode_rel_def control_defs)
  then show ?thesis
    by (simp add: fetch_execute_permitted [OF idle True] post_bindE se_def)
qed

lemma checkInterrupt_post:
  assumes idle: "channel_idle s"
  shows "post (checkInterrupt s)
     (\<lambda>h s'. (entered_kernel s s' \<and> access_violation h) \<or> (s' = s \<and> h = SIGFPE))
     (\<lambda>s'. if timer_due s \<and> interruptEnabledFlag s \<and> \<not> kernelMode s
           then entered_kernel s s' \<and> registers s' PC = SYS_INDEX else s' = s)"
proof -
  have "post (syscall SYS_INDEX s)
     (\<lambda>h s'. (entered_kernel s s' \<and> access_violation h) \<or> (s' = s \<and> h = SIGFPE))
     (\<lambda>s'. if interruptEnabledFlag s \<and> \<not> kernelMode s
           then entered_kernel s s' \<and> registers s' PC = SYS_INDEX else s' = s)"
    using syscall_post [OF idle, of SYS_INDEX] by (rule post_mono) auto
  then show ?thesis
    by (auto simp add: checkInterrupt_def timer_due_def)
qed

lemma inv_mode_rel: "machine_inv s \<Longrightarrow> mode_rel opc s s' \<Longrightarrow> machine_inv s'"
  by (auto simp add: machine_inv_def flags_paired_def mode_rel_def control_defs)

lemma inv_entered_kernel: "entered_kernel s s' \<Longrightarrow> machine_inv s'"
  by (auto simp add: machine_inv_def flags_paired_def control_defs)

lemma inv_counter [simp]: "machine_inv (s\<lparr>instruction_counter := n\<rparr>) = machine_inv s"
  by (simp add: machine_inv_def flags_paired_def channel_idle_def)

lemma cycle_post:
  assumes "machine_inv s"
  shows "post (cycle s) (\<lambda>h s'. machine_inv s' \<and> proper_halt h)
     (\<lambda>s'. machine_inv s' \<and> instruction_counter s' = instruction_counter s + 1
          \<and> interrupt_timer s' = interrupt_timer s)"
proof -
  from assms have idle: "channel_idle s" by (simp add: machine_inv_def)
  have chk: "post (checkInterrupt s1) (\<lambda>h s'. machine_inv s' \<and> proper_halt h)
     (\<lambda>s'. machine_inv s' \<and> instruction_counter s' = instruction_counter s + 1
          \<and> interrupt_timer s' = interrupt_timer s)"
    if "mode_rel (fetched s) s (s1\<lparr>instruction_counter := instruction_counter s\<rparr>)"
      "instruction_counter s1 = instruction_counter s + 1" for s1
  proof -
    from inv_mode_rel [OF assms that(1)] have i1: "machine_inv s1" by simp
    then have idle1: "channel_idle s1" by (simp add: machine_inv_def)
    from that(1) have t1: "interrupt_timer s1 = interrupt_timer s"
      by (auto simp add: mode_rel_def control_defs)
    show ?thesis
      using checkInterrupt_post [OF idle1]
      by (rule post_mono)
        (use i1 t1 that(2) in \<open>auto simp add: machine_inv_def flags_paired_def entered_kernel_def split: if_splits\<close>)
  qed
  have "post (fetch_execute s) (\<lambda>h s'. machine_inv s' \<and> proper_halt h)
     (\<lambda>s1. post (checkInterrupt s1) (\<lambda>h s'. machine_inv s' \<and> proper_halt h)
     (\<lambda>s'. machine_inv s' \<and> instruction_counter s' = instruction_counter s + 1
          \<and> interrupt_timer s' = interrupt_timer s))"
    using fetch_execute_post [OF idle]
    by (rule post_mono) (use assms chk in \<open>auto intro: inv_mode_rel\<close>)
  then show ?thesis by (simp add: cycle_def post_bindE)
qed

lemma run_execution_cycle_post:
  assumes "machine_inv s"
  shows "post (run_execution_cycle n s) (\<lambda>h s'. machine_inv s' \<and> proper_halt h)
     (\<lambda>s'. machine_inv s' \<and> instruction_counter s' = instruction_counter s + of_nat n
          \<and> interrupt_timer s' = interrupt_timer s)"
  using assms
proof (induction n arbitrary: s)
  case 0
  then show ?case by simp
next
  case (Suc n)
  have "post (cycle s) (\<lambda>h s'. machine_inv s' \<and> proper_halt h)
     (\<lambda>s1. post (run_execution_cycle n s1) (\<lambda>h s'. machine_inv s' \<and> proper_halt h)
       (\<lambda>s'. machine_inv s' \<and> instruction_counter s' = instruction_counter s + of_nat (Suc n)
          \<and> interrupt_timer s' = interrupt_timer s))"
    using cycle_post [OF Suc.prems]
  proof (rule post_mono)
    fix s1
    assume a: "machine_inv s1 \<and> instruction_counter s1 = instruction_counter s + 1
      \<and> interrupt_timer s1 = interrupt_timer s"
    then have "machine_inv s1" by simp
    from Suc.IH [OF this] show "post (run_execution_cycle n s1) (\<lambda>h s'. machine_inv s' \<and> proper_halt h)
       (\<lambda>s'. machine_inv s' \<and> instruction_counter s' = instruction_counter s + of_nat (Suc n)
          \<and> interrupt_timer s' = interrupt_timer s)"
      by (rule post_mono) (use a in auto)
  qed simp
  then show ?case by (simp add: post_bindE)
qed

lemma inv_init: "machine_inv (init_processor timer (static_init img rnd))"
  by (simp add: machine_inv_def channel_idle_def flags_paired_def init_processor_def static_init_def
      Let_def)

lemma run_execution_cycle_Suc_end:
  "run_execution_cycle (Suc n) s = bindE (run_execution_cycle n s) cycle"
proof (induction n arbitrary: s)
  case 0
  show ?case by (cases "cycle s") simp_all
next
  case (Suc n)
  show ?case
  proof (cases "cycle s")
    case (Inl e)
    then show ?thesis by simp
  next
    case (Inr s')
    with Suc.IH [of s'] show ?thesis by simp
  qed
qed

lemma run_processor_post:
  "post (run_processor timer False n (static_init img rnd)) (\<lambda>h s'. machine_inv s' \<and> proper_halt h)
     (\<lambda>s'. machine_inv s' \<and> instruction_counter s' = of_nat n \<and> interrupt_timer s' = timer)"
  using run_execution_cycle_post [OF inv_init, where timer1 = timer and img1 = img and rnd1 = rnd and n = n]
  by (simp add: run_processor_False init_processor_def static_init_def Let_def)

section \<open>Mode and interrupt flag\<close>

lemma fetch_execute_inv:
  assumes "machine_inv s"
  shows "post (fetch_execute s) (\<lambda>h s'. machine_inv s') machine_inv"
proof -
  from assms have idle: "channel_idle s" by (simp add: machine_inv_def)
  show ?thesis
    using fetch_execute_post [OF idle]
  proof (rule post_mono)
    fix h s'
    assume "mode_rel (fetched s) s s' \<and> proper_halt h"
    then show "machine_inv s'" using inv_mode_rel [OF assms] by blast
  next
    fix s1
    assume "mode_rel (fetched s) s (s1\<lparr>instruction_counter := instruction_counter s\<rparr>)
      \<and> instruction_counter s1 = instruction_counter s + 1"
    then have "machine_inv (s1\<lparr>instruction_counter := instruction_counter s\<rparr>)"
      using inv_mode_rel [OF assms] by blast
    then show "machine_inv s1" by simp
  qed
qed

lemma state_of_inv:
  "post r (\<lambda>h s'. machine_inv s') machine_inv \<Longrightarrow>
     (kernelMode (state_of r), interruptEnabledFlag (state_of r)) \<in> {(False, True), (True, False)}"
  by (cases r) (auto simp add: state_of_def machine_inv_def flags_paired_def)

text \<open>
  C9, as amended. When the processor runs the execution loop (no self-test), then after
  any number of cycles from the initial processor state, on any memory image, with any
  timer value and random source, whether the machine is still running or has stopped, the
  pair of the mode and the interrupt flag is (user, enabled) or (kernel, disabled); the
  same holds between the execution of the next instruction and the timer check that
  follows it.
\<close>

theorem mode_and_interrupt_flag_paired:
  "(kernelMode (state_of (run_processor timer False n (static_init img rnd))),
    interruptEnabledFlag (state_of (run_processor timer False n (static_init img rnd))))
   \<in> {(False, True), (True, False)}
   \<and> (kernelMode (state_of (bindE (run_processor timer False n (static_init img rnd)) fetch_execute)),
    interruptEnabledFlag
      (state_of (bindE (run_processor timer False n (static_init img rnd)) fetch_execute)))
   \<in> {(False, True), (True, False)}"
proof -
  have a: "post (run_processor timer False n (static_init img rnd)) (\<lambda>h s'. machine_inv s') machine_inv"
    using run_processor_post [of timer n img rnd] by (rule post_mono) auto
  have "post (run_processor timer False n (static_init img rnd)) (\<lambda>h s'. machine_inv s')
      (\<lambda>s. post (fetch_execute s) (\<lambda>h s'. machine_inv s') machine_inv)"
    using a by (rule post_mono) (auto intro: fetch_execute_inv)
  then have b: "post (bindE (run_processor timer False n (static_init img rnd)) fetch_execute)
      (\<lambda>h s'. machine_inv s') machine_inv"
    by (simp add: post_bindE)
  from state_of_inv [OF a] state_of_inv [OF b] show ?thesis by simp
qed

lemma upt_0_10: "[0..<10] = [0, 1, 2, 3, 4, 5, 6, 7, 8, 9]"
  by (simp add: upt_rec)

lemma printRegistersAndStack_kernel:
  assumes "channel_idle s" "kernelMode s"
  shows "printRegistersAndStack s = Inr s"
  using assms unfolding printRegistersAndStack_def upt_0_10
  by (simp add: readMemory_permitted permitted_iff)

text \<open>
  C9 as stated admits no operation that gives kernel mode with interrupts enabled. The
  self-test, which \<^verbatim>\<open>run_processor\<close> runs in place of the loop when the debug flag is set,
  sets the mode alone: it ends with exit code SUCCESS in kernel mode with interrupts
  enabled.
\<close>

theorem debug_mode_counterexample:
  "run_processor 5 True 0 (static_init example_image zero_rand)
     = Inl (Exit SUCCESS, example_debug_exit)
   \<and> (kernelMode (state_of (run_processor 5 True 0 (static_init example_image zero_rand))),
      interruptEnabledFlag
        (state_of (run_processor 5 True 0 (static_init example_image zero_rand))))
     = (True, True)"
proof -
  define s0 where "s0 = example_boot 5"
  define s1 where "s1 = s0\<lparr>memory := (memory s0)[10 := 1337]\<rparr>"
  define s2 where "s2 = set_reg Y 40 (set_reg X 30 (set_reg AC 20 (set_reg IR 10
      (set_reg SP (inactive_sys_stack s0)
         (s0\<lparr>memory := (memory s0)[10 := 1337], kernelMode := True\<rparr>)))))"
  have idle0: "channel_idle s0" and p0: "permitted 10 s0"
    by (simp_all add: s0_def channel_idle_def permitted_iff example_boot_simps)
  have idle1: "channel_idle s1" and p1: "permitted 10 s1"
    using idle0 p0 by (simp_all add: s1_def)
  have idle2: "channel_idle s2" and k2: "kernelMode s2"
    using idle0 by (simp_all add: s2_def channel_idle_def)
  have sp2: "registers s2 SP = 2000"
    by (simp add: s2_def s0_def example_boot_simps register_values_defs)
  have pf: "\<forall>i\<in>{1..5::nat}. permitted (registers s2 SP - of_nat i) s2"
    unfolding sp2 set_1_5 using k2 by (simp add: permitted_iff)
  define s3 where "s3 = set_reg SP (registers s2 SP - 5)
       (s2\<lparr>memory := (memory s2)
          [nat (sint (registers s2 SP - 1)) := registers s2 PC,
           nat (sint (registers s2 SP - 2)) := registers s2 IR,
           nat (sint (registers s2 SP - 3)) := registers s2 AC,
           nat (sint (registers s2 SP - 4)) := registers s2 X,
           nat (sint (registers s2 SP - 5)) := registers s2 Y]\<rparr>)"
  have push: "pushRegistersOnStack s2 = Inr s3"
    unfolding s3_def by (rule pushRegistersOnStack_permitted [OF idle2 pf])
  have idle3: "channel_idle s3" and k3: "kernelMode s3"
    using idle2 k2 by (simp_all add: s3_def)
  define s4 where "s4 = set_reg Y 66 (set_reg X 77 (set_reg AC 88 (set_reg IR 99 s3)))"
  have idle4: "channel_idle s4" and k4: "kernelMode s4"
    using idle3 k3 by (simp_all add: s4_def)
  have sp4: "registers s4 SP = 1995"
    by (simp add: s4_def s3_def sp2 [unfolded SP_def] register_values_defs)
  have pp: "\<forall>i\<in>{1..5::nat}. permitted (registers s4 SP + 5 - of_nat i) s4"
    unfolding sp4 set_1_5 using k4 by (simp add: permitted_iff)
  define s5 where "s5 = set_reg SP (registers s4 SP + 5)
       (set_reg Y (memory s4 ! nat (sint (registers s4 SP)))
       (set_reg X (memory s4 ! nat (sint (registers s4 SP + 1)))
       (set_reg AC (memory s4 ! nat (sint (registers s4 SP + 2)))
       (set_reg IR (memory s4 ! nat (sint (registers s4 SP + 3)))
       (set_reg PC (memory s4 ! nat (sint (registers s4 SP + 4))) s4)))))"
  have pop: "popRegistersOnStack s4 = Inr s5"
    unfolding s5_def by (rule popRegistersOnStack_permitted [OF idle4 pp])
  have idle5: "channel_idle s5" and k5: "kernelMode s5"
    using idle4 k4 by (simp_all add: s5_def)
  have dbg: "debugProgram s0 = Inl (Exit SUCCESS, s5)"
    unfolding debugProgram_def
    by (simp add: readMemory_permitted writeMemory_permitted idle0 p0
        idle1 [unfolded s1_def] p1 [unfolded s1_def] Let_def
        printRegistersAndStack_kernel [OF idle2 k2, unfolded s2_def] push [unfolded s2_def]
        printRegistersAndStack_kernel [OF idle3 k3]
        printRegistersAndStack_kernel [OF idle4 k4, unfolded s4_def] pop [unfolded s4_def]
        printRegistersAndStack_kernel [OF idle5 k5] endProcess_def)
  have fin: "s5 = example_debug_exit"
    unfolding s5_def sp4
    by (simp add: s4_def s3_def sp2 [unfolded SP_def] s2_def s0_def example_boot_simps
        example_debug_exit_def set_reg_def example_image_length fun_eq_iff
        register_values_defs)
  have "run_processor 5 True 0 (static_init example_image zero_rand)
      = Inl (Exit SUCCESS, example_debug_exit)"
    by (simp add: run_processor_def example_boot_def [symmetric] s0_def [symmetric] dbg fin)
  then show ?thesis
    by (simp add: state_of_def) (simp add: example_debug_exit_def)
qed

section \<open>Requests of the processor\<close>

lemma printRegistersAndStack_loop_postI:
  assumes "channel_idle s" "Q s" "\<And>h. access_violation h \<Longrightarrow> E h s"
  shows "post (printRegistersAndStack_loop js s) E Q"
  using assms
proof (induction js)
  case Nil
  then show ?case by simp
next
  case (Cons i js)
  show ?case
    unfolding printRegistersAndStack_loop.simps post_bindE
    by (rule readMemory_postI) (use Cons in auto)
qed

lemma debugProgram_post:
  assumes idle: "channel_idle s"
  shows "post (debugProgram s) (\<lambda>h s'. proper_halt h) (\<lambda>s'. False)"
proof -
  have print: "post (printRegistersAndStack s') (\<lambda>h s'. proper_halt h) Q"
    if "channel_idle s'" "Q s'" for s' Q
    unfolding printRegistersAndStack_def
    by (rule printRegistersAndStack_loop_postI) (use that in auto)
  have push: "post (pushRegistersOnStack s') (\<lambda>h s'. proper_halt h) Q"
    if "channel_idle s'" "\<And>s''. channel_idle s'' \<Longrightarrow> Q s''" for s' Q
    using pushRegistersOnStack_post [OF that(1)]
    by (rule post_mono) (use that(2) in \<open>auto simp add: same_control_def\<close>)
  have pop: "post (popRegistersOnStack s') (\<lambda>h s'. proper_halt h) Q"
    if "channel_idle s'" "\<And>s''. channel_idle s'' \<Longrightarrow> Q s''" for s' Q
    using popRegistersOnStack_post [OF that(1)]
    by (rule post_mono) (use that(2) in \<open>auto simp add: same_control_def\<close>)
  show ?thesis
    unfolding debugProgram_def Let_def post_bindE
    using idle
    by (intro readMemory_postI writeMemory_postI print push pop |
        simp add: post_bindE endProcess_def channel_idle_def)+
qed

lemma run_processor_halts_properly:
  "post (run_processor timer debugMode n (static_init img rnd)) (\<lambda>h s'. proper_halt h)
     (\<lambda>s'. True)"
proof (cases debugMode)
  case False
  then have d: "debugMode = False" by simp
  show ?thesis
    unfolding d using run_processor_post [of timer n img rnd]
    by (rule post_mono) auto
next
  case True
  have "channel_idle (init_processor timer (static_init img rnd))"
    using inv_init [of timer img rnd] by (simp add: machine_inv_def)
  then have "post (debugProgram (init_processor timer (static_init img rnd)))
      (\<lambda>h s'. proper_halt h) (\<lambda>s. post (endProcess PROGRAM_PATH_FAILURE s :: machine outcome)
         (\<lambda>h s'. proper_halt h) (\<lambda>s'. True))"
    by (rule debugProgram_post [THEN post_mono]) simp_all
  moreover have d: "debugMode = True" using True by simp
  ultimately show ?thesis
    by (simp add: run_processor_def post_bindE Let_def)
qed

lemma proper_halt_not_memory_failure:
  "proper_halt h \<Longrightarrow> h \<noteq> Exit READ_FAILURE \<and> h \<noteq> Exit WRITE_FAILURE"
  by (auto simp add: proper_halt_def access_violation_def error_codes_defs)

text \<open>
  C10. A request of the processor is written to the pipe only after the access check has
  let the address through, and then the address lies in 0..1999 and the handler answers
  SUCCESS to the READ and to the WRITE request; when the check refuses the address the
  processor stops with its access violation in the unchanged state, nothing having been
  written. So no run of the machine, in the execution loop or in the self-test, stops with
  READ_FAILURE or WRITE_FAILURE.
\<close>

theorem processor_requests_in_range:
  "(channel_idle s \<and> permitted a s \<longrightarrow>
       0 \<le> sint a \<and> sint a < 2000
     \<and> signalhandler (write_procToMem a (write_procToMem READ s))
         = Inr (s\<lparr>memToProc := [SUCCESS, memory s ! nat (sint a)]\<rparr>)
     \<and> signalhandler (write_procToMem v (write_procToMem a (write_procToMem WRITE s)))
         = Inr (s\<lparr>memory := (memory s)[nat (sint a) := v], memToProc := [SUCCESS]\<rparr>)
     \<and> readMemory a s = Inr (memory s ! nat (sint a), s)
     \<and> writeMemory a v s = Inr (s\<lparr>memory := (memory s)[nat (sint a) := v]\<rparr>))
   \<and> (\<not> permitted a s \<longrightarrow>
       (\<exists>h. access_violation h \<and> readMemory a s = Inl (h, s) \<and> writeMemory a v s = Inl (h, s)))
   \<and> halted_with (run_processor timer debugMode n (static_init img rnd))
       \<noteq> Some (Exit READ_FAILURE)
   \<and> halted_with (run_processor timer debugMode n (static_init img rnd))
       \<noteq> Some (Exit WRITE_FAILURE)"
proof (intro conjI impI)
  assume a: "channel_idle s \<and> permitted a s"
  then have r: "0 \<le> sint a" "sint a < 2000" by (simp_all add: permitted_iff)
  from r show "0 \<le> sint a" "sint a < 2000" .
  from a show "readMemory a s = Inr (memory s ! nat (sint a), s)"
    by (simp add: readMemory_permitted)
  from a show "writeMemory a v s = Inr (s\<lparr>memory := (memory s)[nat (sint a) := v]\<rparr>)"
    by (simp add: writeMemory_permitted)
  from a r show "signalhandler (write_procToMem a (write_procToMem READ s))
         = Inr (s\<lparr>memToProc := [SUCCESS, memory s ! nat (sint a)]\<rparr>)"
    by (simp add: signalhandler_def read_procToMem_def write_procToMem_def write_memToProc_def
        in_range_iff channel_idle_def READ_def)
  from a r show "signalhandler (write_procToMem v (write_procToMem a (write_procToMem WRITE s)))
         = Inr (s\<lparr>memory := (memory s)[nat (sint a) := v], memToProc := [SUCCESS]\<rparr>)"
    by (simp add: signalhandler_def read_procToMem_def write_procToMem_def write_memToProc_def
        in_range_iff channel_idle_def READ_def WRITE_def)
next
  assume "\<not> permitted a s"
  then show "\<exists>h. access_violation h \<and> readMemory a s = Inl (h, s) \<and> writeMemory a v s = Inl (h, s)"
    using verifyAccess_cases [of a s]
    by (auto simp add: permitted_def readMemory_def writeMemory_def)
next
  show "halted_with (run_processor timer debugMode n (static_init img rnd))
       \<noteq> Some (Exit READ_FAILURE)"
    "halted_with (run_processor timer debugMode n (static_init img rnd))
       \<noteq> Some (Exit WRITE_FAILURE)"
    using run_processor_halts_properly [of timer debugMode n img rnd]
    by (cases "run_processor timer debugMode n (static_init img rnd)";
        auto simp add: halted_with_def dest: proper_halt_not_memory_failure)+
qed

theorem processor_requests_in_range_witness:
  "channel_idle (example_boot 5) \<and> permitted 10 (example_boot 5)
   \<and> readMemory 10 (example_boot 5) = Inr (0, example_boot 5)
   \<and> writeMemory 10 7 (example_boot 5) = Inr (example_boot 5\<lparr>memory := example_image[10 := 7]\<rparr>)
   \<and> \<not> permitted 2000 (example_boot 5)
   \<and> readMemory 2000 (example_boot 5) = Inl (Exit MEMORY_OUT_OF_BOUNDS, example_boot 5)"
proof -
  have h1: "channel_idle (example_boot 5) \<and> permitted 10 (example_boot 5)"
    by (simp add: channel_idle_def permitted_iff example_boot_simps)
  have h2: "\<not> permitted 2000 (example_boot 5)"
    by (simp add: permitted_iff)
  have r: "readMemory 2000 (example_boot 5) = Inl (Exit MEMORY_OUT_OF_BOUNDS, example_boot 5)"
    by (simp add: readMemory_def verifyAccess_def endProcess_def word_sle_eq word_sless_alt
        MEMORY_SIZE_def)
  show ?thesis
    using processor_requests_in_range [where s = "example_boot 5" and a = 10 and v = 7] h1 h2 r
    by (simp add: example_boot_simps example_image_def nth_append)
qed

section \<open>The timer\<close>

lemma sint_of_nat_small:
  assumes "n < 2 ^ 31"
  shows "sint (of_nat n :: int32) = int n"
proof -
  have "int n < 2 ^ 31" using assms by (simp add: of_nat_less_iff [of n "2 ^ 31", simplified])
  then show ?thesis
    by (simp add: signed_of_nat signed_take_bit_int_eq_self)
qed

lemma smod_zero_iff_dvd:
  fixes c t :: int
  assumes "0 \<le> c" "0 < t"
  shows "(c smod t = 0) = (t dvd c)"
  using assms by (auto simp add: smod_int_alt_def sgn_if dvd_eq_mod_eq_0)

lemma handler_image_cells:
  "handler_image ! 0 = 1" "handler_image ! Suc 0 = 5"
  "handler_image[1999 := a, 1998 := b, 1997 := c, 1996 := d, 1995 := e] ! 1000 = 25"
  "length handler_image = 2000"
  by (simp_all add: handler_image_def example_image_cells example_image_length INCX_def)

lemma handler_run:
  "run_processor 1 False 1 (static_init handler_image zero_rand) = Inr handler_entered"
  unfolding run_processor_False run_steps
  by (simp add: init_processor_def static_init_def Let_def eval_defs handler_image_cells
      checkInterrupt_def smod_int_alt_def syscall_def pushRegistersOnStack_def upt_Suc0_6
      handler_entered_def)

lemma handler_incx:
  "fetch_execute handler_entered = Inr handler_after_incx"
  "checkInterrupt handler_after_incx = Inr handler_after_incx"
  by (simp_all add: handler_entered_def handler_after_incx_def eval_defs handler_image_cells
      executeInstruction_arith checkInterrupt_def smod_int_alt_def syscall_def)

lemma fetch_execute_sysreturn:
  assumes idle: "channel_idle s" and fe: "fetch_execute s = Inr s1"
    and op: "fetched s = SYSRETURN"
  shows "\<not> kernelMode s1 \<and> interruptEnabledFlag s1"
proof -
  have p: "permitted (registers s PC) s"
  proof (rule ccontr)
    assume "\<not> permitted (registers s PC) s"
    from fetch_execute_denied [OF idle this] fe show False by auto
  qed
  define se where "se = set_reg PC (registers s PC + 1) (set_reg IR (fetched s) s)"
  have ir: "registers se IR = SYSRETURN" by (simp add: se_def op register_values_defs)
  have idle_e: "channel_idle se" using idle by (simp add: se_def)
  from fetch_execute_permitted [OF idle p] fe
  have "bindE (return_syscall se)
      (\<lambda>s. Inr (s\<lparr>instruction_counter := instruction_counter s + 1\<rparr>)) = Inr s1"
    by (simp add: se_def [symmetric] executeInstruction_control(9) [OF ir])
  then obtain s' where r: "return_syscall se = Inr s'"
    and s1: "s1 = s'\<lparr>instruction_counter := instruction_counter s' + 1\<rparr>"
    by (cases "return_syscall se") auto
  from return_syscall_post [OF idle_e] r have "returned_to_user se s'" by simp
  then show ?thesis by (simp add: s1 returned_to_user_def)
qed

lemma handler_frame_cells:
  "handler_image[1999 := a, 1998 := b, 1997 := c, 1996 := d, 1995 := e] ! 1001 = 30"
  "handler_image[1999 := a, 1998 := b, 1997 := c, 1996 := d, 1995 := e] ! 1999 = a"
  "handler_image[1999 := a, 1998 := b, 1997 := c, 1996 := d, 1995 := e] ! 1998 = b"
  "handler_image[1999 := a, 1998 := b, 1997 := c, 1996 := d, 1995 := e] ! 1997 = c"
  "handler_image[1999 := a, 1998 := b, 1997 := c, 1996 := d, 1995 := e] ! 1996 = d"
  "handler_image[1999 := a, 1998 := b, 1997 := c, 1996 := d, 1995 := e] ! 1995 = e"
  by (simp_all add: handler_image_def example_image_length SYSRETURN_def)

lemma frame_stored_twice:
  "length xs = 2000 \<Longrightarrow>
   xs[1999 := a, 1998 := b, 1997 := c, 1996 := d, 1995 := e,
      1999 := a, 1998 := b, 1997 := c, 1996 := d, 1995 := e]
   = xs[1999 := a, 1998 := b, 1997 := c, 1996 := d, 1995 := (e::int32)]"
  by (simp add: list_eq_iff_nth_eq nth_list_update)

lemma handler_sysreturn:
  "fetch_execute handler_after_incx = Inr handler_returned"
  "checkInterrupt handler_returned = Inr handler_reentered"
  by (simp_all add: handler_after_incx_def handler_returned_def handler_reentered_def
      eval_defs handler_frame_cells executeInstruction_control return_syscall_def
      popRegistersOnStack_def pushRegistersOnStack_def upt_Suc0_6 Let_def
      checkInterrupt_def smod_int_alt_def syscall_def frame_stored_twice
      handler_image_cells)

text \<open>
  C4. Let the machine, started with a positive timer value N, be running after n
  instructions (n below the largest \<^verbatim>\<open>int\<close>), and let the next instruction and the timer check
  after it complete. Then the instruction counter is n before and n + 1 after the
  instruction; the timer check switches to kernel mode at address 1000 exactly when the
  machine is in user mode after the instruction and N divides n + 1; in kernel mode, or
  when N does not divide n + 1, the check changes nothing; and a machine in kernel mode
  stays there across every instruction other than SYSRETURN, so no timer interrupt is
  taken until SYSRETURN has been executed; and after a SYSRETURN the machine is in user
  mode with interrupts enabled, so that the timer check following it fires again when N
  divides n + 1.
\<close>

theorem timer_interrupt_fires_exactly:
  assumes run: "run_processor timer False n (static_init img rnd) = Inr s"
    and N: "0 < sint timer" and n: "n < 2 ^ 31 - 1"
    and fe: "fetch_execute s = Inr s1" and ci: "checkInterrupt s1 = Inr s2"
  shows "sint (instruction_counter s) = int n \<and> sint (instruction_counter s1) = int n + 1
    \<and> run_processor timer False (Suc n) (static_init img rnd) = Inr s2
    \<and> ((\<not> kernelMode s1 \<and> kernelMode s2 \<and> registers s2 PC = SYS_INDEX)
         = (\<not> kernelMode s1 \<and> sint timer dvd int n + 1))
    \<and> (kernelMode s1 \<or> \<not> sint timer dvd int n + 1 \<longrightarrow> s2 = s1)
    \<and> (kernelMode s \<and> memory s ! nat (sint (registers s PC)) \<noteq> SYSRETURN \<longrightarrow>
         kernelMode s1 \<and> s2 = s1)
    \<and> (memory s ! nat (sint (registers s PC)) = SYSRETURN \<longrightarrow>
         \<not> kernelMode s1 \<and> interruptEnabledFlag s1)"
proof -
  from run_processor_post [of timer n img rnd] run
  have machine_inv: "machine_inv s" and cnt: "instruction_counter s = of_nat n" and tm: "interrupt_timer s = timer"
    by simp_all
  from machine_inv have idle: "channel_idle s" by (simp add: machine_inv_def)
  from fetch_execute_post [OF idle] fe
  have rel: "mode_rel (fetched s) s (s1\<lparr>instruction_counter := instruction_counter s\<rparr>)"
    and cnt1: "instruction_counter s1 = instruction_counter s + 1"
    by simp_all
  from inv_mode_rel [OF machine_inv rel] have inv1: "machine_inv s1" by simp
  then have idle1: "channel_idle s1" and paired1: "interruptEnabledFlag s1 = (\<not> kernelMode s1)"
    by (simp_all add: machine_inv_def flags_paired_def)
  from rel have tm1: "interrupt_timer s1 = timer"
    using tm by (auto simp add: mode_rel_def control_defs)
  have c0: "sint (instruction_counter s) = int n"
    using n by (simp add: cnt sint_of_nat_small)
  have "instruction_counter s1 = of_nat (Suc n)" by (simp add: cnt1 cnt)
  then have c1: "sint (instruction_counter s1) = int n + 1"
    using n sint_of_nat_small [of "Suc n"] by simp
  have due: "timer_due s1 = (sint timer dvd int n + 1)"
    using N by (simp add: timer_due_def c1 tm1 smod_zero_iff_dvd)
  from checkInterrupt_post [OF idle1] ci
  have chk: "if timer_due s1 \<and> interruptEnabledFlag s1 \<and> \<not> kernelMode s1
           then entered_kernel s1 s2 \<and> registers s2 PC = SYS_INDEX else s2 = s1"
    by simp
  have step: "run_processor timer False (Suc n) (static_init img rnd) = Inr s2"
    using run fe ci
    by (simp add: run_processor_False run_execution_cycle_Suc_end cycle_def del: run_execution_cycle.simps)
  have fires: "(\<not> kernelMode s1 \<and> kernelMode s2 \<and> registers s2 PC = SYS_INDEX)
         = (\<not> kernelMode s1 \<and> sint timer dvd int n + 1)"
    using chk paired1 due by (auto simp add: entered_kernel_def split: if_splits)
  have quiet: "kernelMode s1 \<or> \<not> sint timer dvd int n + 1 \<longrightarrow> s2 = s1"
    using chk due by (auto split: if_splits)
  have stay: "kernelMode s \<and> memory s ! nat (sint (registers s PC)) \<noteq> SYSRETURN \<longrightarrow>
         kernelMode s1 \<and> s2 = s1"
    using rel chk by (auto simp add: mode_rel_def control_defs fetched_def split: if_splits)
  have resume: "memory s ! nat (sint (registers s PC)) = SYSRETURN \<longrightarrow>
         \<not> kernelMode s1 \<and> interruptEnabledFlag s1"
    using fetch_execute_sysreturn [OF idle fe] by (simp add: fetched_def)
  from c0 c1 step fires quiet stay resume show ?thesis by blast
qed

theorem timer_interrupt_fires_exactly_witness:
  "run_processor 1 False 0 (static_init example_image zero_rand) = Inr (example_boot 1)
   \<and> 0 < sint (1::int32) \<and> (0::nat) < 2 ^ 31 - 1
   \<and> fetch_execute (example_boot 1) = Inr example_after_load
   \<and> checkInterrupt example_after_load = Inr example_in_handler
   \<and> run_processor 1 False 1 (static_init example_image zero_rand) = Inr example_in_handler
   \<and> \<not> kernelMode example_after_load \<and> kernelMode example_in_handler
   \<and> registers example_in_handler PC = SYS_INDEX
   \<and> run_processor 1 False 1 (static_init handler_image zero_rand) = Inr handler_entered
   \<and> (1::nat) < 2 ^ 31 - 1
   \<and> fetch_execute handler_entered = Inr handler_after_incx
   \<and> checkInterrupt handler_after_incx = Inr handler_after_incx
   \<and> kernelMode handler_entered
   \<and> memory handler_entered ! nat (sint (registers handler_entered PC)) \<noteq> SYSRETURN
   \<and> sint (1::int32) dvd int 1 + 1
   \<and> kernelMode handler_after_incx
   \<and> run_processor 1 False 2 (static_init handler_image zero_rand) = Inr handler_after_incx
   \<and> (2::nat) < 2 ^ 31 - 1
   \<and> fetch_execute handler_after_incx = Inr handler_returned
   \<and> checkInterrupt handler_returned = Inr handler_reentered
   \<and> memory handler_after_incx ! nat (sint (registers handler_after_incx PC)) = SYSRETURN
   \<and> \<not> kernelMode handler_returned \<and> interruptEnabledFlag handler_returned
   \<and> sint (1::int32) dvd int 2 + 1
   \<and> kernelMode handler_reentered \<and> registers handler_reentered PC = SYS_INDEX
   \<and> run_processor 1 False 3 (static_init handler_image zero_rand) = Inr handler_reentered"
proof -
  have h1: "run_processor 1 False 0 (static_init example_image zero_rand) = Inr (example_boot 1)"
    by (simp add: run_processor_False example_boot_def)
  have h2: "0 < sint (1::int32)" by simp
  have h3: "(0::nat) < 2 ^ 31 - 1" by simp
  have h4: "fetch_execute (example_boot 1) = Inr example_after_load"
    by (simp add: example_boot_def init_processor_def static_init_def Let_def eval_defs
        example_image_cells example_after_load_def)
  have h5: "checkInterrupt example_after_load = Inr example_in_handler"
    by (simp add: example_after_load_def example_in_handler_def eval_defs checkInterrupt_def
        smod_int_alt_def syscall_def Let_def pushRegistersOnStack_def upt_Suc0_6)
  have g3: "(1::nat) < 2 ^ 31 - 1" by simp
  have g6: "kernelMode handler_entered"
    "memory handler_entered ! nat (sint (registers handler_entered PC)) \<noteq> SYSRETURN"
    by (simp_all add: handler_entered_def handler_image_cells register_values_defs
        SYSRETURN_def)
  have two: "Suc 1 = 2" by simp
  have a: "run_processor 1 False 1 (static_init example_image zero_rand) = Inr example_in_handler"
    using timer_interrupt_fires_exactly [OF h1 h2 h3 h4 h5]
    unfolding One_nat_def [symmetric] by blast
  have b: "run_processor 1 False 2 (static_init handler_image zero_rand) = Inr handler_after_incx"
    using timer_interrupt_fires_exactly [OF handler_run h2 g3 handler_incx]
    unfolding two by blast
  have k: "\<not> kernelMode example_after_load" "kernelMode example_in_handler"
    "registers example_in_handler PC = SYS_INDEX" "kernelMode handler_after_incx"
    by (simp_all add: example_after_load_def example_in_handler_def handler_after_incx_def
        SYS_INDEX_def register_values_defs)
  have three: "Suc 2 = 3" by simp
  have g7: "(2::nat) < 2 ^ 31 - 1" by simp
  have g8: "memory handler_after_incx ! nat (sint (registers handler_after_incx PC))
      = SYSRETURN"
    by (simp add: handler_after_incx_def handler_frame_cells register_values_defs
        SYSRETURN_def)
  note third = timer_interrupt_fires_exactly [OF b h2 g7 handler_sysreturn]
  have c: "run_processor 1 False 3 (static_init handler_image zero_rand)
      = Inr handler_reentered"
    using third unfolding three by blast
  have u: "\<not> kernelMode handler_returned \<and> interruptEnabledFlag handler_returned"
    using third g8 by blast
  have k': "kernelMode handler_reentered" "registers handler_reentered PC = SYS_INDEX"
    by (simp_all add: handler_reentered_def SYS_INDEX_def register_values_defs)
  show ?thesis
    using a b c u h1 h4 h5 handler_run handler_incx handler_sysreturn g6 g8 k k' by simp
qed

end
